theory Spec2Isabelle
  imports Main "HOL-Library.Sublist" "HOL-Library.Multiset"
begin

section \<open>Python values and library functions used by \<^verbatim>\<open>visual_data_discover.py\<close>\<close>

text \<open>
  A Python string is a list of Unicode code points, each a natural number.  \<open>ustr\<close> writes
  a string of ASCII characters as such a list, so \<open>ustr ''jpg''\<close> is the Python literal
  \<open>"jpg"\<close>.  The type tags \<open>"photo"\<close> and \<open>"video"\<close> and the tag names of the example
  extractor are kept as plain literals.

  An exception of the source is a value \<open>Inl e\<close> of a sum type; a normal return is \<open>Inr\<close>.
\<close>

type_synonym pystr = "nat list"

definition ustr :: "string \<Rightarrow> pystr" where
  "ustr s = map of_char s"

datatype error = ValueError | TypeError | OSError

subsection \<open>The interpreter\<close>

text \<open>
  \<open>str.isdigit\<close> and \<open>int\<close> read the Unicode database of the interpreter, and \<open>int\<close> has
  a limit on the number of digits of its argument; both depend on the version of the
  interpreter and are parameters of the model.

  The database gives every code point its class: no digit, a digit that is not a decimal
  digit (Numeric_Type=Digit, the superscript two for one), or a decimal digit with its
  value (Numeric_Type=Decimal: the ASCII digits, the Arabic-Indic digits, the fullwidth
  digits and so on).  \<open>int_max_str_digits\<close> is \<open>sys.get_int_max_str_digits()\<close>, where
  \<open>0\<close> says that there is no limit (as on the versions that have none).
\<close>

datatype digit_class = NoDigit | Digit | Decimal nat

record python =
  unicode_digit :: "nat \<Rightarrow> digit_class"
  int_max_str_digits :: nat

text \<open>
  What every version has in common: the ASCII characters \<open>0\<close> to \<open>9\<close> are decimal digits
  with their values, no other ASCII character is a digit, and a limit on the digits that
  is not switched off is at least 640.
\<close>

definition python_ok :: "python \<Rightarrow> bool" where
  "python_ok py =
     ((\<forall>c<128. unicode_digit py c =
         (if 48 \<le> c \<and> c \<le> 57 then Decimal (c - 48) else NoDigit)) \<and>
      (int_max_str_digits py = 0 \<or> 640 \<le> int_max_str_digits py))"

subsection \<open>Strings\<close>

text \<open>\<open>c.isdigit()\<close> for one character: true of the digits and the decimal digits.\<close>

definition isdigit :: "python \<Rightarrow> nat \<Rightarrow> bool" where
  "isdigit py c = (unicode_digit py c \<noteq> NoDigit)"

text \<open>The values of the characters of a string, when every one is a decimal digit.\<close>

fun decimal_values :: "python \<Rightarrow> pystr \<Rightarrow> nat list option" where
  "decimal_values py [] = Some []"
| "decimal_values py (c # cs) =
     (case unicode_digit py c of
        Decimal d \<Rightarrow>
          (case decimal_values py cs of
             Some ds \<Rightarrow> Some (d # ds)
           | None \<Rightarrow> None)
      | _ \<Rightarrow> None)"

text \<open>
  \<open>int(s)\<close> for a string \<open>s\<close> all of whose characters satisfy \<open>isdigit\<close>, the only strings
  the module passes to it.  It raises \<open>ValueError\<close> for the empty string, for a string with
  more characters than the limit, and for a string with a character that is a digit but
  not a decimal digit; otherwise it returns the number the decimal values denote.
\<close>

definition int_of_digits :: "python \<Rightarrow> pystr \<Rightarrow> error + int" where
  "int_of_digits py s =
     (if s = [] then Inl ValueError
      else if 0 < int_max_str_digits py \<and> int_max_str_digits py < length s
      then Inl ValueError
      else
        (case decimal_values py s of
           None \<Rightarrow> Inl ValueError
         | Some ds \<Rightarrow> Inr (foldl (\<lambda>n d. 10 * n + int d) 0 ds)))"

text \<open>
  \<open>s.lower()\<close>.  The ASCII capitals go to their small letters.  A code point outside
  ASCII is left as it is: the lower case that Unicode gives it is not modelled, and none
  has one of the letters \<open>t\<close>, \<open>h\<close>, \<open>u\<close>, \<open>m\<close>, \<open>b\<close> in it, so that \<open>"thumb" in s.lower()\<close>,
  the one use the module makes of \<open>lower\<close>, has the same value.
\<close>

definition lower_char :: "nat \<Rightarrow> nat" where
  "lower_char c = (if 65 \<le> c \<and> c \<le> 90 then c + 32 else c)"

definition lower :: "pystr \<Rightarrow> pystr" where
  "lower s = map lower_char s"

text \<open>The operator \<open>needle in hay\<close> on strings: \<open>needle\<close> occurs at some position of \<open>hay\<close>.\<close>

fun str_contains :: "pystr \<Rightarrow> pystr \<Rightarrow> bool" where
  "str_contains needle [] = (needle = [])"
| "str_contains needle (c # cs) = (prefix needle (c # cs) \<or> str_contains needle cs)"

text \<open>\<open>s.rfind(c)\<close> for a one-character \<open>c\<close>: the last index of \<open>c\<close> in \<open>s\<close>, or \<open>-1\<close>.\<close>

fun rfind :: "nat \<Rightarrow> pystr \<Rightarrow> int" where
  "rfind c [] = - 1"
| "rfind c (x # xs) =
     (let r = rfind c xs
      in if 0 \<le> r then r + 1 else if x = c then 0 else - 1)"

subsection \<open>\<open>os.path\<close> (POSIX)\<close>

text \<open>The characters \<open>os.sep\<close> and \<open>os.extsep\<close>: the slash and the dot.\<close>

definition sep :: nat where
  "sep = of_char CHR ''/''"

definition extsep :: nat where
  "extsep = of_char CHR ''.''"

text \<open>
  \<open>os.path.splitext\<close>: the extension starts at the last dot of the last path component,
  unless that component has nothing but dots before it.  The loop of the library over
  \<open>p[sepIndex + 1 : dotIndex]\<close> looks for a character that is not a dot.
\<close>

definition splitext :: "pystr \<Rightarrow> pystr \<times> pystr" where
  "splitext p =
     (let sepIndex = rfind sep p;
          dotIndex = rfind extsep p
      in if sepIndex < dotIndex \<and>
            list_ex (\<lambda>c. c \<noteq> extsep)
              (take (nat (dotIndex - (sepIndex + 1))) (drop (nat (sepIndex + 1)) p))
         then (take (nat dotIndex) p, drop (nat dotIndex) p)
         else (p, []))"

definition basename :: "pystr \<Rightarrow> pystr" where
  "basename p = drop (nat (rfind sep p + 1)) p"

text \<open>\<open>os.path.join(a, b)\<close> with two arguments.\<close>

definition join :: "pystr \<Rightarrow> pystr \<Rightarrow> pystr" where
  "join a b =
     (if prefix [sep] b then b
      else if a = [] \<or> suffix [sep] a then a @ b
      else a @ [sep] @ b)"

subsection \<open>\<open>list.sort(key=...)\<close>\<close>

text \<open>
  \<open>xs.sort(key=f)\<close> computes the key of every element first, in list order, and an
  exception of \<open>f\<close> leaves the call; then it sorts the elements by their keys, ascending and
  stable.  \<open>sort_key\<close> is the stable sort of the library.
\<close>

fun keys_of :: "('a \<Rightarrow> error + 'k) \<Rightarrow> 'a list \<Rightarrow> error + ('k \<times> 'a) list" where
  "keys_of f [] = Inr []"
| "keys_of f (x # xs) =
     (case f x of
        Inl e \<Rightarrow> Inl e
      | Inr k \<Rightarrow>
          (case keys_of f xs of
             Inl e \<Rightarrow> Inl e
           | Inr kxs \<Rightarrow> Inr ((k, x) # kxs)))"

definition list_sort :: "('a \<Rightarrow> error + 'k::linorder) \<Rightarrow> 'a list \<Rightarrow> error + 'a list" where
  "list_sort f xs =
     (case keys_of f xs of
        Inl e \<Rightarrow> Inl e
      | Inr kxs \<Rightarrow> Inr (map snd (sort_key fst kxs)))"

subsection \<open>Truth value of an optional number\<close>

text \<open>
  \<open>not x\<close> for a value that is \<open>None\<close> or a number: true for \<open>None\<close> and for zero.
\<close>

definition py_not :: "'v::zero option \<Rightarrow> bool" where
  "py_not x = (case x of None \<Rightarrow> True | Some v \<Rightarrow> v = 0)"

section \<open>The collaborators\<close>

text \<open>
  Modelled from the spec: the classes \<open>VisualData\<close>, \<open>Photo\<close> and \<open>Video\<close> of
  \<open>osc_models\<close>, which is not among the sources.  The spec describes them as attribute
  containers: a path and an index, and for a photo the seven metadata fields, every field
  but the path absent after construction.
\<close>

record visual_data =
  path :: pystr
  index :: "int option"

record 'v photo = visual_data +
  latitude :: "'v option"
  longitude :: "'v option"
  exif_timestamp :: "'v option"
  gps_timestamp :: "'v option"
  gps_speed :: "'v option"
  gps_altitude :: "'v option"
  gps_compass :: "'v option"

type_synonym video = visual_data

definition Photo :: "pystr \<Rightarrow> 'v photo" where
  "Photo p =
     \<lparr>path = p, index = None, latitude = None, longitude = None, exif_timestamp = None,
      gps_timestamp = None, gps_speed = None, gps_altitude = None, gps_compass = None\<rparr>"

definition Video :: "pystr \<Rightarrow> video" where
  "Video p = \<lparr>path = p, index = None\<rparr>"

text \<open>
  Modelled from the spec: the module \<open>exif_processing\<close>, which is not among the sources.
  It is a parameter of the model: \<open>all_tags\<close> maps a path to a tag mapping of some type
  \<open>'t\<close>, and every accessor maps a tag mapping to a value or to absence.  The values are
  of a linearly ordered type \<open>'v\<close> with a zero (the numbers the accessors return; a
  floating-point value that is not a number is no value of the model).  Every function of
  the module returns: an exception raised inside the extractor is outside the model.
\<close>

record ('t, 'v) exif_processing =
  ep_all_tags :: "pystr \<Rightarrow> 't"
  ep_gps_timestamp :: "'t \<Rightarrow> 'v option"
  ep_gps_latitude :: "'t \<Rightarrow> 'v option"
  ep_gps_longitude :: "'t \<Rightarrow> 'v option"
  ep_timestamp :: "'t \<Rightarrow> 'v option"
  ep_gps_speed :: "'t \<Rightarrow> 'v option"
  ep_gps_altitude :: "'t \<Rightarrow> 'v option"
  ep_gps_compass :: "'t \<Rightarrow> 'v option"

text \<open>
  The file system as the module reads it: \<open>os.path.isdir\<close>, which never raises, and
  \<open>os.listdir\<close>, which returns the entry names in an order of its own or raises.
\<close>

record filesystem =
  isdir :: "pystr \<Rightarrow> bool"
  listdir :: "pystr \<Rightarrow> error + pystr list"

section \<open>\<^verbatim>\<open>visual_data_discover.py\<close>\<close>

subsection \<open>\<open>PhotoDiscovery\<close>\<close>

definition PhotoDiscovery_photo_from_path :: "pystr \<Rightarrow> 'v photo option" where
  "PhotoDiscovery_photo_from_path p = Some (Photo p)"

text \<open>The sort key of plain photo and of video discovery.\<close>

definition digit_key :: "python \<Rightarrow> pystr \<Rightarrow> error + int" where
  "digit_key py p = int_of_digits py (filter (isdigit py) (basename p))"

definition PhotoDiscovery_sort_photo_list ::
  "python \<Rightarrow> 'v photo list \<Rightarrow> error + 'v photo list" where
  "PhotoDiscovery_sort_photo_list py photos = list_sort (\<lambda>p. digit_key py (path p)) photos"

text \<open>
  The first loop of \<open>PhotoDiscovery.discover\<close>, with the class method
  \<open>_photo_from_path\<close> of the receiving class as a parameter.
\<close>

fun collect_photos ::
  "(pystr \<Rightarrow> 'v photo option) \<Rightarrow> pystr \<Rightarrow> pystr list \<Rightarrow> 'v photo list" where
  "collect_photos from_path dir [] = []"
| "collect_photos from_path dir (file_path # files) =
     (let (file_name, file_extension) = splitext file_path
      in if (str_contains (ustr ''jpg'') file_extension \<or>
             str_contains (ustr ''jpeg'') file_extension) \<and>
            \<not> str_contains (ustr ''thumb'') (lower file_name)
         then (case from_path (join dir file_path) of
                 Some photo \<Rightarrow> photo # collect_photos from_path dir files
               | None \<Rightarrow> collect_photos from_path dir files)
         else collect_photos from_path dir files)"

text \<open>The second loop: the index of each record, counted from \<open>index\<close>.\<close>

fun assign_index :: "int \<Rightarrow> 'a visual_data_scheme list \<Rightarrow> 'a visual_data_scheme list" where
  "assign_index i [] = []"
| "assign_index i (p # ps) = p\<lparr>index := Some i\<rparr> # assign_index (i + 1) ps"

text \<open>
  \<open>PhotoDiscovery.discover\<close>, inherited by \<open>ExifPhotoDiscoverer\<close>: \<open>from_path\<close> and
  \<open>sort_photo_list\<close> are the class methods of the class the call is made on.  The
  debug line the method logs first has no part in the result and is left out.  In the
  first loop, \<open>if photo:\<close> tells a record from \<open>None\<close>: an object of class \<open>Photo\<close> is
  true.
\<close>

definition discover_photos ::
  "(pystr \<Rightarrow> 'v photo option) \<Rightarrow> ('v photo list \<Rightarrow> error + 'v photo list) \<Rightarrow>
   filesystem \<Rightarrow> pystr \<Rightarrow> error + ('v photo list \<times> string)" where
  "discover_photos from_path sort_photo_list fs dir =
     (if \<not> isdir fs dir then Inr ([], ''photo'')
      else
        (case listdir fs dir of
           Inl e \<Rightarrow> Inl e
         | Inr files \<Rightarrow>
             (case sort_photo_list (collect_photos from_path dir files) of
                Inl e \<Rightarrow> Inl e
              | Inr photos \<Rightarrow> Inr (assign_index 0 photos, ''photo''))))"

definition PhotoDiscovery_discover ::
  "python \<Rightarrow> filesystem \<Rightarrow> pystr \<Rightarrow> error + ('v photo list \<times> string)" where
  "PhotoDiscovery_discover py fs dir =
     discover_photos PhotoDiscovery_photo_from_path (PhotoDiscovery_sort_photo_list py) fs dir"

subsection \<open>\<open>ExifPhotoDiscoverer\<close>\<close>

definition ExifPhotoDiscoverer_photo_from_path ::
  "('t, 'v::zero) exif_processing \<Rightarrow> pystr \<Rightarrow> 'v photo option" where
  "ExifPhotoDiscoverer_photo_from_path ep p =
     (let photo = Photo p;
          tags_data = ep_all_tags ep (path photo);
          photo = photo\<lparr>gps_timestamp := ep_gps_timestamp ep tags_data\<rparr>;
          photo = photo\<lparr>latitude := ep_gps_latitude ep tags_data\<rparr>;
          photo = photo\<lparr>longitude := ep_gps_longitude ep tags_data\<rparr>
      in if py_not (latitude photo) \<or> py_not (longitude photo) \<or>
            py_not (gps_timestamp photo)
         then None
         else
           (let photo = photo\<lparr>exif_timestamp := ep_timestamp ep tags_data\<rparr>;
                photo = photo\<lparr>gps_speed := ep_gps_speed ep tags_data\<rparr>;
                photo = photo\<lparr>gps_altitude := ep_gps_altitude ep tags_data\<rparr>;
                photo = photo\<lparr>gps_compass := ep_gps_compass ep tags_data\<rparr>
            in Some photo))"

text \<open>
  The key is \<open>p.gps_timestamp\<close>.  Comparing \<open>None\<close> with anything raises \<open>TypeError\<close>,
  and sorting two or more elements compares each of them at least once; a list of fewer
  than two elements is returned as it is.
\<close>

definition timestamp_key :: "'v photo \<Rightarrow> error + 'v" where
  "timestamp_key p = (case gps_timestamp p of None \<Rightarrow> Inl TypeError | Some t \<Rightarrow> Inr t)"

definition ExifPhotoDiscoverer_sort_photo_list ::
  "('v::linorder) photo list \<Rightarrow> error + 'v photo list" where
  "ExifPhotoDiscoverer_sort_photo_list photos =
     (if length photos < 2 then Inr photos else list_sort timestamp_key photos)"

definition ExifPhotoDiscoverer_discover ::
  "('t, 'v::{zero,linorder}) exif_processing \<Rightarrow> filesystem \<Rightarrow> pystr \<Rightarrow>
   error + ('v photo list \<times> string)" where
  "ExifPhotoDiscoverer_discover ep fs dir =
     discover_photos (ExifPhotoDiscoverer_photo_from_path ep)
       ExifPhotoDiscoverer_sort_photo_list fs dir"

subsection \<open>\<open>VideoDiscoverer\<close>\<close>

fun collect_videos :: "pystr \<Rightarrow> pystr list \<Rightarrow> video list" where
  "collect_videos dir [] = []"
| "collect_videos dir (file_path # files) =
     (let (_, file_extension) = splitext file_path
      in if str_contains (ustr ''mp4'') file_extension
         then Video (join dir file_path) # collect_videos dir files
         else collect_videos dir files)"

definition VideoDiscoverer_sort_list :: "python \<Rightarrow> video list \<Rightarrow> error + video list" where
  "VideoDiscoverer_sort_list py videos = list_sort (\<lambda>v. digit_key py (path v)) videos"

definition VideoDiscoverer_discover ::
  "python \<Rightarrow> filesystem \<Rightarrow> pystr \<Rightarrow> error + (video list \<times> string)" where
  "VideoDiscoverer_discover py fs dir =
     (if \<not> isdir fs dir then Inr ([], ''video'')
      else
        (case listdir fs dir of
           Inl e \<Rightarrow> Inl e
         | Inr files \<Rightarrow>
             (case VideoDiscoverer_sort_list py (collect_videos dir files) of
                Inl e \<Rightarrow> Inl e
              | Inr videos \<Rightarrow> Inr (assign_index 0 videos, ''video''))))"

section \<open>The candidate filters in the words of the specification\<close>

text \<open>
  A photo candidate: the extension contains \<open>jpg\<close> or \<open>jpeg\<close> as a substring, and the
  name without the extension, in lower case, does not contain \<open>thumb\<close>.  A video
  candidate: the extension contains \<open>mp4\<close>.  \<open>sublist xs ys\<close> says that \<open>xs\<close> is a
  contiguous part of \<open>ys\<close>.
\<close>

definition photo_candidate :: "pystr \<Rightarrow> bool" where
  "photo_candidate entry =
     ((sublist (ustr ''jpg'') (snd (splitext entry)) \<or>
       sublist (ustr ''jpeg'') (snd (splitext entry))) \<and>
      \<not> sublist (ustr ''thumb'') (lower (fst (splitext entry))))"

definition video_candidate :: "pystr \<Rightarrow> bool" where
  "video_candidate entry = sublist (ustr ''mp4'') (snd (splitext entry))"

text \<open>
  What the extractor yields for one path: the seven derived values, in the order
  GPS timestamp, latitude, longitude, EXIF timestamp, speed, altitude, compass.
\<close>

definition extractor_results ::
  "('t, 'v) exif_processing \<Rightarrow> pystr \<Rightarrow> 'v option list" where
  "extractor_results ep p =
     (let tags_data = ep_all_tags ep p
      in [ep_gps_timestamp ep tags_data, ep_gps_latitude ep tags_data,
          ep_gps_longitude ep tags_data, ep_timestamp ep tags_data,
          ep_gps_speed ep tags_data, ep_gps_altitude ep tags_data,
          ep_gps_compass ep tags_data])"

section \<open>Example interpreter, directories and extractor\<close>

text \<open>
  The interpreter of the examples is CPython 3.11, whose Unicode database has the version
  14.0.0.  The decimal digits of the database come in runs of ten consecutive code points
  with the values \<open>0\<close> to \<open>9\<close>, and \<open>decimal_zeros\<close> lists the first code point of every
  run: \<open>U+0030\<close>, the Arabic-Indic digits from \<open>U+0660\<close>, the fullwidth digits from
  \<open>U+FF10\<close> and so on.  \<open>other_digits\<close> lists the ranges of the characters that are digits
  and not decimal digits: the superscript digits \<open>U+00B2\<close>, \<open>U+00B3\<close> and \<open>U+00B9\<close>, the
  circled digits and so on.  The limit on the digits of \<open>int\<close> is the default, 4300.
\<close>

definition decimal_zeros :: "nat list" where
  "decimal_zeros =
     [48, 1632, 1776, 1984, 2406, 2534, 2662, 2790, 2918, 3046, 3174, 3302, 3430, 3558, 3664,
      3792, 3872, 4160, 4240, 6112, 6160, 6470, 6608, 6784, 6800, 6992, 7088, 7232, 7248,
      42528, 43216, 43264, 43472, 43504, 43600, 44016, 65296, 66720, 68912, 69734, 69872,
      69942, 70096, 70384, 70736, 70864, 71248, 71360, 71472, 71904, 72016, 72784, 73040,
      73120, 92768, 92864, 93008, 120782, 120792, 120802, 120812, 120822, 123200, 123632,
      125264, 130032]"

definition other_digits :: "(nat \<times> nat) list" where
  "other_digits =
     [(178, 179), (185, 185), (4969, 4977), (6618, 6618), (8304, 8304), (8308, 8313),
      (8320, 8329), (9312, 9320), (9332, 9340), (9352, 9360), (9450, 9450), (9461, 9469),
      (9471, 9471), (10102, 10110), (10112, 10120), (10122, 10130), (68160, 68163),
      (69216, 69224), (69714, 69722), (127232, 127242)]"

definition cpython311 :: python where
  "cpython311 =
     \<lparr>unicode_digit =
        (\<lambda>c. case find (\<lambda>z. z \<le> c \<and> c < z + 10) decimal_zeros of
               Some z \<Rightarrow> Decimal (c - z)
             | None \<Rightarrow>
                 if list_ex (\<lambda>(lo, hi). lo \<le> c \<and> c \<le> hi) other_digits then Digit
                 else NoDigit),
      int_max_str_digits = 4300\<rparr>"

text \<open>A file system with one directory \<open>d\<close> whose listing is \<open>files\<close>.\<close>

definition fs_of :: "pystr \<Rightarrow> pystr list \<Rightarrow> filesystem" where
  "fs_of d files =
     \<lparr>isdir = (\<lambda>p. p = d), listdir = (\<lambda>p. if p = d then Inr files else Inl OSError)\<rparr>"

text \<open>
  An extractor over tag mappings that are association lists from tag names to integers.
  \<open>a_1.jpg\<close> and \<open>b_2.jpg\<close> carry the mandatory trio, \<open>c_3.jpg\<close> has no latitude,
  \<open>e_4.jpg\<close> has latitude \<open>0\<close>.
\<close>

definition example_tags :: "pystr \<Rightarrow> (string \<times> int) list" where
  "example_tags p =
     (if p = ustr ''d/a_1.jpg''
      then [(''GPSTimeStamp'', 200), (''GPSLatitude'', 45), (''GPSLongitude'', 7)]
      else if p = ustr ''d/b_2.jpg''
      then [(''GPSTimeStamp'', 100), (''GPSLatitude'', 46), (''GPSLongitude'', 8),
            (''GPSSpeed'', 30)]
      else if p = ustr ''d/c_3.jpg''
      then [(''GPSTimeStamp'', 150), (''GPSLongitude'', 8), (''GPSAltitude'', 500)]
      else if p = ustr ''d/e_4.jpg''
      then [(''GPSTimeStamp'', 120), (''GPSLatitude'', 0), (''GPSLongitude'', 9)]
      else [])"

definition example_ep :: "((string \<times> int) list, int) exif_processing" where
  "example_ep =
     \<lparr>ep_all_tags = example_tags,
      ep_gps_timestamp = (\<lambda>t. map_of t ''GPSTimeStamp''),
      ep_gps_latitude = (\<lambda>t. map_of t ''GPSLatitude''),
      ep_gps_longitude = (\<lambda>t. map_of t ''GPSLongitude''),
      ep_timestamp = (\<lambda>t. map_of t ''DateTimeOriginal''),
      ep_gps_speed = (\<lambda>t. map_of t ''GPSSpeed''),
      ep_gps_altitude = (\<lambda>t. map_of t ''GPSAltitude''),
      ep_gps_compass = (\<lambda>t. map_of t ''GPSImgDirection'')\<rparr>"



text \<open>
  A second file system and a second extractor: they agree with \<open>fs_of d files\<close> and
  \<open>example_ep\<close> on the directory \<open>d\<close> and differ elsewhere.  The tag mappings of the
  second extractor are maps, not association lists.
\<close>

definition fs_of2 :: "pystr \<Rightarrow> pystr list \<Rightarrow> filesystem" where
  "fs_of2 d files =
     \<lparr>isdir = (\<lambda>p. p = d \<or> p = ustr ''elsewhere''),
      listdir = (\<lambda>p. if p = d then Inr files
                     else if p = ustr ''elsewhere'' then Inr [ustr ''z_9.jpg'']
                     else Inl OSError)\<rparr>"

definition example_ep2 :: "(string \<Rightarrow> int option, int) exif_processing" where
  "example_ep2 =
     \<lparr>ep_all_tags =
        (\<lambda>p. map_of (if p = ustr ''elsewhere/z_9.jpg''
                      then [(''GPSTimeStamp'', 1), (''GPSLatitude'', 2), (''GPSLongitude'', 3)]
                      else example_tags p)),
      ep_gps_timestamp = (\<lambda>t. t ''GPSTimeStamp''),
      ep_gps_latitude = (\<lambda>t. t ''GPSLatitude''),
      ep_gps_longitude = (\<lambda>t. t ''GPSLongitude''),
      ep_timestamp = (\<lambda>t. t ''DateTimeOriginal''),
      ep_gps_speed = (\<lambda>t. t ''GPSSpeed''),
      ep_gps_altitude = (\<lambda>t. t ''GPSAltitude''),
      ep_gps_compass = (\<lambda>t. t ''GPSImgDirection'')\<rparr>"

section \<open>Helper lemmas\<close>

subsection \<open>Substrings and sorting\<close>

lemma str_contains_sublist: "str_contains needle hay = sublist needle hay"
  by (induction hay) (auto simp: sublist_Cons_right)

lemma keys_of_Inr_iff:
  "keys_of f xs = Inr kxs \<longleftrightarrow>
     list_all (\<lambda>x. \<not> isl (f x)) xs \<and> kxs = map (\<lambda>x. (projr (f x), x)) xs"
proof (induction xs arbitrary: kxs)
  case Nil
  show ?case by auto
next
  case (Cons x xs)
  show ?case
  proof (cases "f x")
    case (Inl e)
    then show ?thesis by simp
  next
    case fx: (Inr k)
    show ?thesis
    proof (cases "keys_of f xs")
      case (Inl e)
      with fx Cons.IH [of "map (\<lambda>x. (projr (f x), x)) xs"] show ?thesis by auto
    next
      case (Inr r)
      with fx Cons.IH [of r] show ?thesis by auto
    qed
  qed
qed

lemma insort_key_decorate:
  "insort_key fst (g x, x) (map (\<lambda>y. (g y, y)) ys) = map (\<lambda>y. (g y, y)) (insort_key g x ys)"
  by (induction ys) simp_all

lemma sort_key_decorate:
  "sort_key fst (map (\<lambda>y. (g y, y)) xs) = map (\<lambda>y. (g y, y)) (sort_key g xs)"
  by (induction xs) (simp_all add: insort_key_decorate)

lemma list_sort_Inr_iff:
  "list_sort f xs = Inr ys \<longleftrightarrow>
     list_all (\<lambda>x. \<not> isl (f x)) xs \<and> ys = sort_key (\<lambda>x. projr (f x)) xs"
proof (cases "keys_of f xs")
  case (Inl e)
  then have "\<not> list_all (\<lambda>x. \<not> isl (f x)) xs"
    using keys_of_Inr_iff [of f xs] by (metis Inl_Inr_False)
  with Inl show ?thesis by (simp add: list_sort_def)
next
  case (Inr kxs)
  then have a: "list_all (\<lambda>x. \<not> isl (f x)) xs" and k: "kxs = map (\<lambda>x. (projr (f x), x)) xs"
    by (simp_all add: keys_of_Inr_iff)
  have "map snd (sort_key fst kxs) = sort_key (\<lambda>x. projr (f x)) xs"
    unfolding k sort_key_decorate by (simp add: comp_def)
  with Inr a show ?thesis by (auto simp: list_sort_def)
qed

lemma keys_of_Inl: "keys_of f xs = Inl e \<Longrightarrow> \<exists>x\<in>set xs. f x = Inl e"
  by (induction xs) (auto split: sum.splits)

lemma list_sort_Inl: "list_sort f xs = Inl e \<Longrightarrow> \<exists>x\<in>set xs. f x = Inl e"
  by (auto simp: list_sort_def split: sum.splits dest: keys_of_Inl)

subsection \<open>Paths\<close>

lemma rfind_bounds: "- 1 \<le> rfind c xs \<and> rfind c xs < int (length xs)"
  by (induction xs) (auto simp: Let_def)

lemma rfind_nonneg_iff: "0 \<le> rfind c xs \<longleftrightarrow> c \<in> set xs"
  by (induction xs) (auto simp: Let_def)

lemma rfind_notin: "c \<notin> set xs \<Longrightarrow> rfind c xs = - 1"
  using rfind_nonneg_iff [of c xs] rfind_bounds [of c xs] by linarith

lemma rfind_append:
  "rfind c (xs @ ys) = (if 0 \<le> rfind c ys then int (length xs) + rfind c ys else rfind c xs)"
proof (induction xs)
  case Nil
  from rfind_bounds [of c ys] show ?case by auto
next
  case (Cons x xs)
  then show ?case by (auto simp: Let_def)
qed

lemma rfind_snoc: "rfind c (xs @ [c]) = int (length xs)"
  by (simp add: rfind_append)

lemma rfind_drop: "c \<notin> set (drop (nat (rfind c xs + 1)) xs)"
proof (induction xs)
  case Nil
  show ?case by simp
next
  case (Cons x xs)
  show ?case
  proof (cases "0 \<le> rfind c xs")
    case True
    then have "nat (rfind c xs + 1 + 1) = Suc (nat (rfind c xs + 1))" by simp
    with True Cons show ?thesis by (simp add: Let_def)
  next
    case False
    then have "c \<notin> set xs" by (simp add: rfind_nonneg_iff)
    with False show ?thesis by (auto simp: Let_def)
  qed
qed

text \<open>A directory prefix: empty, or ending with the separator.\<close>

lemma rfind_sep_prefix:
  "a = [] \<or> suffix [sep] a \<Longrightarrow> rfind sep a = int (length a) - 1"
  by (auto simp: suffix_def rfind_snoc)

lemma basename_append:
  assumes "a = [] \<or> suffix [sep] a"
  shows "basename (a @ b) = basename b"
proof (cases "0 \<le> rfind sep b")
  case True
  then have "nat (int (length a) + rfind sep b + 1) = length a + nat (rfind sep b + 1)"
    by linarith
  with True show ?thesis
    by (simp add: basename_def rfind_append)
next
  case False
  moreover from False rfind_bounds [of "sep" b] have "rfind sep b = - 1" by linarith
  ultimately show ?thesis
    using assms by (simp add: basename_def rfind_append rfind_sep_prefix)
qed

lemma basename_join: "basename (join a b) = basename b"
proof -
  have "basename ((a @ [sep]) @ b) = basename b"
    by (rule basename_append) (simp add: suffix_def)
  then show ?thesis
    by (auto simp: join_def basename_append)
qed

lemma digit_key_join: "digit_key py (join a b) = digit_key py b"
  by (simp add: digit_key_def basename_join)

lemma basename_decompose:
  obtains a where "p = a @ basename p" and "a = [] \<or> suffix [sep] a"
    and "sep \<notin> set (basename p)"
proof
  let ?k = "nat (rfind sep p + 1)"
  show "p = take ?k p @ basename p" by (simp add: basename_def)
  show "sep \<notin> set (basename p)" unfolding basename_def by (rule rfind_drop)
  show "take ?k p = [] \<or> suffix [sep] (take ?k p)"
  proof (cases "0 \<le> rfind sep p")
    case False
    with rfind_bounds [of "sep" p] have "rfind sep p = - 1" by linarith
    then show ?thesis by simp
  next
    case True
    define r where "r = nat (rfind sep p)"
    from True have rr: "rfind sep p = int r" by (simp add: r_def)
    with rfind_bounds [of "sep" p] have lt: "r < length p" by simp
    have k: "?k = Suc r" using rr by simp
    have "p ! r = sep"
      using rr lt
    proof (induction p arbitrary: r)
      case Nil
      then show ?case by simp
    next
      case (Cons x xs)
      show ?case
      proof (cases "0 \<le> rfind sep xs")
        case True
        with Cons.prems obtain r' where r': "r = Suc r'" "rfind sep xs = int r'"
          by (cases r) (auto simp: Let_def)
        with Cons.prems Cons.IH [of r'] show ?thesis by simp
      next
        case False
        with Cons.prems show ?thesis by (auto simp: Let_def split: if_splits)
      qed
    qed
    with lt have "take (Suc r) p = take r p @ [sep]"
      by (simp add: take_Suc_conv_app_nth)
    then show ?thesis unfolding k by (simp add: suffix_def)
  qed
qed

lemma splitext_append:
  assumes a: "a = [] \<or> suffix [sep] a" and b: "sep \<notin> set b"
  shows "splitext (a @ b) = (a @ fst (splitext b), snd (splitext b))"
proof -
  have sa: "rfind sep a = int (length a) - 1" using a by (rule rfind_sep_prefix)
  have sb: "rfind sep b = - 1" using b by (rule rfind_notin)
  have sab: "rfind sep (a @ b) = int (length a) - 1"
    by (simp add: rfind_append sa sb)
  show ?thesis
  proof (cases "0 \<le> rfind extsep b")
    case True
    define d where "d = nat (rfind extsep b)"
    from True have d: "rfind extsep b = int d" by (simp add: d_def)
    have dab: "rfind extsep (a @ b) = int (length a) + int d"
      by (simp add: rfind_append d)
    have n: "nat (int (length a) + int d) = length a + d" by linarith
    show ?thesis
      by (simp add: splitext_def sab sb dab d n Let_def)
  next
    case False
    with rfind_bounds [of "extsep" b] have d: "rfind extsep b = - 1" by linarith
    have dab: "rfind extsep (a @ b) = rfind extsep a"
      by (simp add: rfind_append d)
    from rfind_bounds [of "extsep" a] have "\<not> int (length a) - 1 < rfind extsep a" by linarith
    then show ?thesis
      by (simp add: splitext_def sab sb dab d Let_def)
  qed
qed

subsection \<open>The two loops\<close>

lemma length_assign_index: "length (assign_index i ps) = length ps"
  by (induction ps arbitrary: i) simp_all

lemma map_index_assign_index:
  "map index (assign_index i ps) = map (\<lambda>k. Some (i + int k)) [0..<length ps]"
proof (induction ps arbitrary: i)
  case Nil
  show ?case by simp
next
  case (Cons p ps)
  have "map (\<lambda>k. Some (i + int k)) [0..<length (p # ps)] =
        Some i # map (\<lambda>k. Some (i + int (Suc k))) [0..<length ps]"
    by (simp add: upt_conv_Cons map_Suc_upt [symmetric] del: upt_Suc)
  also have "\<dots> = Some i # map (\<lambda>k. Some ((i + 1) + int k)) [0..<length ps]"
    by (simp add: add.assoc add.commute)
  finally show ?case using Cons.IH [of "i + 1"] by simp
qed

lemma map_assign_index_frame:
  "(\<And>p j. f (p\<lparr>index := j\<rparr>) = f p) \<Longrightarrow> map f (assign_index i ps) = map f ps"
  by (induction ps arbitrary: i) simp_all

lemma collect_photos_eq:
  "collect_photos from_path dir files =
     List.map_filter (\<lambda>e. from_path (join dir e)) (filter photo_candidate files)"
  unfolding photo_candidate_def
  by (induction files)
     (auto simp: List.map_filter_simps str_contains_sublist split: prod.splits option.splits)

lemma collect_videos_eq:
  "collect_videos dir files = map (\<lambda>e. Video (join dir e)) (filter video_candidate files)"
  unfolding video_candidate_def
  by (induction files) (auto simp: str_contains_sublist split: prod.splits)

lemma discover_photos_not_isdir:
  "\<not> isdir fs dir \<Longrightarrow> discover_photos from_path sort_photo_list fs dir = Inr ([], ''photo'')"
  by (simp add: discover_photos_def)

lemma discover_photos_Inr:
  assumes "discover_photos from_path sort_photo_list fs dir = Inr (recs, tag)"
    and "isdir fs dir"
  obtains files photos where "listdir fs dir = Inr files"
    and "sort_photo_list (collect_photos from_path dir files) = Inr photos"
    and "recs = assign_index 0 photos" and "tag = ''photo''"
  using assms by (auto simp: discover_photos_def split: sum.splits)

lemma VideoDiscoverer_discover_Inr:
  assumes "VideoDiscoverer_discover py fs dir = Inr (recs, tag)"
    and "isdir fs dir"
  obtains files videos where "listdir fs dir = Inr files"
    and "VideoDiscoverer_sort_list py (collect_videos dir files) = Inr videos"
    and "recs = assign_index 0 videos" and "tag = ''video''"
  using assms by (auto simp: VideoDiscoverer_discover_def split: sum.splits)

lemma discover_photos_index:
  assumes "discover_photos from_path sort_photo_list fs dir = Inr (recs, tag)"
  shows "map index recs = map (\<lambda>k. Some (int k)) [0..<length recs]"
proof (cases "isdir fs dir")
  case True
  from assms True obtain photos where "recs = assign_index 0 photos"
    by (rule discover_photos_Inr)
  then show ?thesis
    by (simp add: map_index_assign_index length_assign_index)
next
  case False
  with assms show ?thesis by (simp add: discover_photos_not_isdir)
qed

subsection \<open>Plain photo and video discovery in closed form\<close>


lemma digit_key_cases:
  "digit_key py p = Inl ValueError \<or> (\<exists>k. digit_key py p = Inr k)"
  by (simp add: digit_key_def int_of_digits_def split: option.splits)

lemma collect_photos_plain:
  "collect_photos PhotoDiscovery_photo_from_path dir files =
     map (\<lambda>e. Photo (join dir e)) (filter photo_candidate files)"
  by (simp add: collect_photos_eq PhotoDiscovery_photo_from_path_def List.map_filter_def comp_def)

lemma path_Photo: "path (Photo p) = p"
  by (simp add: Photo_def)

lemma path_Video: "path (Video p) = p"
  by (simp add: Video_def)

lemma list_sort_digit_key:
  "list_sort (\<lambda>r. digit_key py (path r)) rs =
     (if list_all (\<lambda>r. \<not> isl (digit_key py (path r))) rs
      then Inr (sort_key (\<lambda>r. projr (digit_key py (path r))) rs)
      else Inl ValueError)"
proof (cases "list_sort (\<lambda>r. digit_key py (path r)) rs")
  case (Inl e)
  then obtain r where r: "r \<in> set rs" "digit_key py (path r) = Inl e"
    by (auto dest: list_sort_Inl)
  from r(2) digit_key_cases [of py "path r"] have e: "e = ValueError" by auto
  from r(2) have "isl (digit_key py (path r))" by simp
  with r(1) have "\<not> list_all (\<lambda>r. \<not> isl (digit_key py (path r))) rs"
    by (auto simp: list_all_iff)
  with Inl e show ?thesis by simp
next
  case (Inr ys)
  then show ?thesis
    by (simp add: list_sort_Inr_iff)
qed

lemma PhotoDiscovery_discover_eq:
  assumes "isdir fs dir" and "listdir fs dir = Inr files"
  shows "PhotoDiscovery_discover py fs dir =
     (if list_all (\<lambda>e. \<not> isl (digit_key py e)) (filter photo_candidate files)
      then Inr (assign_index 0
                 (sort_key (\<lambda>r. projr (digit_key py (path r)))
                    (map (\<lambda>e. Photo (join dir e)) (filter photo_candidate files))),
                ''photo'')
      else Inl ValueError)"
  using assms
  by (simp add: PhotoDiscovery_discover_def discover_photos_def collect_photos_plain
      PhotoDiscovery_sort_photo_list_def list_sort_digit_key list_all_iff path_Photo
      digit_key_join)

lemma VideoDiscoverer_discover_eq:
  assumes "isdir fs dir" and "listdir fs dir = Inr files"
  shows "VideoDiscoverer_discover py fs dir =
     (if list_all (\<lambda>e. \<not> isl (digit_key py e)) (filter video_candidate files)
      then Inr (assign_index 0
                 (sort_key (\<lambda>r. projr (digit_key py (path r)))
                    (map (\<lambda>e. Video (join dir e)) (filter video_candidate files))),
                ''video'')
      else Inl ValueError)"
  using assms
  by (simp add: VideoDiscoverer_discover_def collect_videos_eq VideoDiscoverer_sort_list_def
      list_sort_digit_key list_all_iff path_Video digit_key_join)




subsection \<open>Metadata-validated discovery in closed form\<close>

lemma exif_photo_from_path_None_iff:
  "ExifPhotoDiscoverer_photo_from_path ep p = None \<longleftrightarrow>
     py_not (ep_gps_latitude ep (ep_all_tags ep p)) \<or>
     py_not (ep_gps_longitude ep (ep_all_tags ep p)) \<or>
     py_not (ep_gps_timestamp ep (ep_all_tags ep p))"
  by (simp add: ExifPhotoDiscoverer_photo_from_path_def Let_def path_Photo)

lemma exif_photo_from_path_Some:
  assumes "ExifPhotoDiscoverer_photo_from_path ep p = Some r"
  shows "r = \<lparr>path = p, index = None,
              latitude = ep_gps_latitude ep (ep_all_tags ep p),
              longitude = ep_gps_longitude ep (ep_all_tags ep p),
              exif_timestamp = ep_timestamp ep (ep_all_tags ep p),
              gps_timestamp = ep_gps_timestamp ep (ep_all_tags ep p),
              gps_speed = ep_gps_speed ep (ep_all_tags ep p),
              gps_altitude = ep_gps_altitude ep (ep_all_tags ep p),
              gps_compass = ep_gps_compass ep (ep_all_tags ep p)\<rparr>"
    and "\<not> py_not (latitude r)" and "\<not> py_not (longitude r)"
    and "\<not> py_not (gps_timestamp r)"
  using assms
  by (auto simp: ExifPhotoDiscoverer_photo_from_path_def Let_def Photo_def split: if_splits)

lemma exif_photo_from_path_fields:
  assumes "ExifPhotoDiscoverer_photo_from_path ep p = Some r"
  shows "path r = p" and "index r = None" and "gps_timestamp r \<noteq> None"
  using exif_photo_from_path_Some [OF assms] by (auto simp: py_not_def split: option.splits)

lemma collect_photos_set:
  "set (collect_photos from_path dir files) =
     {r. \<exists>e\<in>set files. photo_candidate e \<and> from_path (join dir e) = Some r}"
  by (force simp: collect_photos_eq List.map_filter_def image_iff)

lemma collect_exif_fields:
  assumes "r \<in> set (collect_photos (ExifPhotoDiscoverer_photo_from_path ep) dir files)"
  shows "index r = None" and "gps_timestamp r \<noteq> None"
    and "ExifPhotoDiscoverer_photo_from_path ep (path r) = Some r"
  using assms exif_photo_from_path_fields [of ep _ r]
  by (auto simp: collect_photos_set)

lemma insort_key_cong_set:
  "f x = g x \<Longrightarrow> (\<And>y. y \<in> set ys \<Longrightarrow> f y = g y) \<Longrightarrow> insort_key f x ys = insort_key g x ys"
  by (induction ys) simp_all

lemma sort_key_cong_set:
  "(\<And>x. x \<in> set xs \<Longrightarrow> f x = g x) \<Longrightarrow> sort_key f xs = sort_key g xs"
proof (induction xs)
  case Nil
  show ?case by simp
next
  case (Cons x xs)
  then have "sort_key f xs = sort_key g xs" by simp
  moreover have "insort_key f x (sort_key g xs) = insort_key g x (sort_key g xs)"
    by (rule insort_key_cong_set) (simp_all add: Cons.prems)
  ultimately show ?case by simp
qed

lemma exif_sort_photo_list:
  assumes "\<And>r. r \<in> set photos \<Longrightarrow> gps_timestamp r \<noteq> None"
  shows "ExifPhotoDiscoverer_sort_photo_list photos =
     Inr (sort_key (\<lambda>r. the (gps_timestamp r)) photos)"
proof (cases "length photos < 2")
  case True
  then have "photos = [] \<or> (\<exists>x. photos = [x])"
    by (cases photos; cases "tl photos") auto
  then show ?thesis
    by (auto simp: ExifPhotoDiscoverer_sort_photo_list_def)
next
  case False
  have k: "\<not> isl (timestamp_key r) \<and> projr (timestamp_key r) = the (gps_timestamp r)"
    if "r \<in> set photos" for r
    using assms [OF that] by (auto simp: timestamp_key_def)
  then have "list_all (\<lambda>r. \<not> isl (timestamp_key r)) photos"
    by (simp add: list_all_iff)
  moreover have "sort_key (\<lambda>r. projr (timestamp_key r)) photos =
      sort_key (\<lambda>r. the (gps_timestamp r)) photos"
    by (rule sort_key_cong_set) (simp add: k)
  ultimately show ?thesis
    using False by (simp add: ExifPhotoDiscoverer_sort_photo_list_def list_sort_Inr_iff)
qed

lemma ExifPhotoDiscoverer_discover_eq:
  assumes "isdir fs dir" and "listdir fs dir = Inr files"
  shows "ExifPhotoDiscoverer_discover ep fs dir =
     Inr (assign_index 0
            (sort_key (\<lambda>r. the (gps_timestamp r))
               (collect_photos (ExifPhotoDiscoverer_photo_from_path ep) dir files)),
          ''photo'')"
  using assms
  by (simp add: ExifPhotoDiscoverer_discover_def discover_photos_def exif_sort_photo_list
      collect_exif_fields)

lemma assign_index_undo:
  "(\<And>r. r \<in> set ps \<Longrightarrow> index r = None) \<Longrightarrow> map (\<lambda>r. r\<lparr>index := None\<rparr>) (assign_index i ps) = ps"
  by (induction ps arbitrary: i) simp_all

lemma exif_discover_sorted_stable:
  fixes ep :: "('t, 'v::{zero,linorder}) exif_processing"
  assumes "isdir fs dir" and "listdir fs dir = Inr files"
  shows "\<exists>recs. ExifPhotoDiscoverer_discover ep fs dir = Inr (recs, ''photo'') \<and>
     (\<exists>ts. map gps_timestamp recs = map Some ts \<and> sorted ts) \<and>
     (\<forall>t. filter (\<lambda>r. gps_timestamp r = Some t) (map (\<lambda>r. r\<lparr>index := None\<rparr>) recs) =
          filter (\<lambda>r. gps_timestamp r = Some t)
            (collect_photos (ExifPhotoDiscoverer_photo_from_path ep) dir files))"
proof -
  let ?xs = "collect_photos (ExifPhotoDiscoverer_photo_from_path ep) dir files"
  let ?k = "\<lambda>r :: 'v photo. the (gps_timestamp r)"
  let ?ys = "sort_key ?k ?xs"
  let ?recs = "assign_index 0 ?ys"
  have some: "Some (?k r) = gps_timestamp r" if "r \<in> set ?xs" for r
  proof -
    from that have "gps_timestamp r \<noteq> None" by (rule collect_exif_fields(2))
    then show ?thesis by auto
  qed
  have eq: "(gps_timestamp r = Some t) = (?k r = t)" if "r \<in> set ?xs" for r t
    using some [OF that] by (metis option.inject)
  have d: "ExifPhotoDiscoverer_discover ep fs dir = Inr (?recs, ''photo'')"
    using assms by (rule ExifPhotoDiscoverer_discover_eq)
  have "map gps_timestamp ?recs = map gps_timestamp ?ys"
    by (rule map_assign_index_frame) simp
  also have "\<dots> = map Some (map ?k ?ys)"
  proof -
    have "map Some (map ?k ?ys) = map (\<lambda>r. Some (?k r)) ?ys" by (simp add: comp_def)
    also have "\<dots> = map gps_timestamp ?ys"
    proof (rule map_cong [OF refl])
      fix r assume "r \<in> set ?ys"
      then have "r \<in> set ?xs" by simp
      then show "Some (?k r) = gps_timestamp r" by (rule some)
    qed
    finally show ?thesis by (rule sym)
  qed
  finally have s: "map gps_timestamp ?recs = map Some (map ?k ?ys)" .
  have so: "sorted (map ?k ?ys)" by (rule sorted_sort_key)
  have u: "map (\<lambda>r. r\<lparr>index := None\<rparr>) ?recs = ?ys"
  proof (rule assign_index_undo)
    fix r assume "r \<in> set ?ys"
    then have "r \<in> set ?xs" by simp
    then show "index r = None" by (rule collect_exif_fields(1))
  qed
  have st: "filter (\<lambda>r. gps_timestamp r = Some t) ?ys = filter (\<lambda>r. gps_timestamp r = Some t) ?xs"
    for t
  proof -
    have "filter (\<lambda>r. gps_timestamp r = Some t) ?ys = filter (\<lambda>r. ?k r = t) ?ys"
    proof (rule filter_cong [OF refl])
      fix r assume "r \<in> set ?ys"
      then have "r \<in> set ?xs" by simp
      then show "(gps_timestamp r = Some t) = (?k r = t)" by (rule eq)
    qed
    also have "\<dots> = filter (\<lambda>r. ?k r = t) ?xs"
      by (rule sort_key_stable)
    also have "\<dots> = filter (\<lambda>r. gps_timestamp r = Some t) ?xs"
      by (rule filter_cong [OF refl]) (rule eq [symmetric])
    finally show ?thesis .
  qed
  show ?thesis
  proof (intro exI conjI allI)
    show "ExifPhotoDiscoverer_discover ep fs dir = Inr (?recs, ''photo'')" by (rule d)
    show "map gps_timestamp ?recs = map Some (map ?k ?ys)" by (rule s)
    show "sorted (map ?k ?ys)" by (rule so)
    show "filter (\<lambda>r. gps_timestamp r = Some t) (map (\<lambda>r. r\<lparr>index := None\<rparr>) ?recs) =
        filter (\<lambda>r. gps_timestamp r = Some t) ?xs" for t
      unfolding u by (rule st)
  qed
qed

lemma exif_discover_two:
  fixes ep :: "('t, 'v::{zero,linorder}) exif_processing"
  assumes "isdir fs dir" and "listdir fs dir = Inr files"
    and f: "files = [a, b] \<or> files = [b, a]"
    and c: "photo_candidate a" "photo_candidate b"
    and a: "ExifPhotoDiscoverer_photo_from_path ep (join dir a) = Some ra"
    and b: "ExifPhotoDiscoverer_photo_from_path ep (join dir b) = Some rb"
    and t: "gps_timestamp ra = Some t1" "gps_timestamp rb = Some t2" "t1 < t2"
  shows "ExifPhotoDiscoverer_discover ep fs dir =
     Inr ([ra\<lparr>index := Some 0\<rparr>, rb\<lparr>index := Some 1\<rparr>], ''photo'')"
proof -
  let ?c = "collect_photos (ExifPhotoDiscoverer_photo_from_path ep) dir"
  have ab: "?c [a, b] = [ra, rb]" and ba: "?c [b, a] = [rb, ra]"
    using c a b by (simp_all add: collect_photos_eq List.map_filter_def)
  have s1: "sort_key (\<lambda>r. the (gps_timestamp r)) [ra, rb] = [ra, rb]"
    and s2: "sort_key (\<lambda>r. the (gps_timestamp r)) [rb, ra] = [ra, rb]"
    using t by simp_all
  have "sort_key (\<lambda>r. the (gps_timestamp r)) (?c files) = [ra, rb]"
    using f ab ba s1 s2 by (elim disjE) simp_all
  then show ?thesis
    using assms(1,2) by (simp add: ExifPhotoDiscoverer_discover_eq)
qed

subsection \<open>Evaluation of the examples\<close>

lemmas eval_path = ustr_def sep_def extsep_def splitext_def basename_def join_def
  suffix_to_prefix lower_def lower_char_def Let_def

lemma cpython311_ok: "python_ok cpython311"
  by (simp add: python_ok_def cpython311_def decimal_zeros_def other_digits_def)

lemma cpython311_digits:
  "unicode_digit cpython311 178 = Digit"
  "unicode_digit cpython311 1635 = Decimal 3"
  "unicode_digit cpython311 65298 = Decimal 2"
  "int_max_str_digits cpython311 = 4300"
  by (simp_all add: cpython311_def decimal_zeros_def other_digits_def)

lemma python_ok_ascii:
  assumes "python_ok py" and "c < 128"
  shows "unicode_digit py c = (if 48 \<le> c \<and> c \<le> 57 then Decimal (c - 48) else NoDigit)"
  using assms by (simp add: python_ok_def)

lemma int_of_digits_short:
  assumes "python_ok py" and "length s < 640"
  shows "int_of_digits py s =
     (if s = [] then Inl ValueError
      else (case decimal_values py s of
              None \<Rightarrow> Inl ValueError
            | Some ds \<Rightarrow> Inr (foldl (\<lambda>n d. 10 * n + int d) 0 ds)))"
proof -
  from assms(1) have "int_max_str_digits py = 0 \<or> 640 \<le> int_max_str_digits py"
    by (simp add: python_ok_def)
  with assms(2)
  have "(0 < int_max_str_digits py \<and> int_max_str_digits py < length s) = False"
    by auto
  then show ?thesis by (simp only: int_of_digits_def if_False)
qed

lemmas eval_ascii = digit_key_def isdigit_def python_ok_ascii int_of_digits_short

lemmas eval_key = digit_key_def int_of_digits_def isdigit_def
  python_ok_ascii [OF cpython311_ok] cpython311_digits

text \<open>
  The keys of three names with a digit outside ASCII: the fullwidth two \<open>U+FF12\<close> and the
  Arabic-Indic three \<open>U+0663\<close> are decimal digits and count with their values, the
  superscript two \<open>U+00B2\<close> is a digit that \<open>int\<close> refuses.
\<close>

lemma digit_key_unicode:
  "digit_key cpython311 (ustr ''a1_'' @ [65298] @ ustr ''.jpg'') = Inr 12"
  "digit_key cpython311 (ustr ''a'' @ [1635] @ ustr ''.jpg'') = Inr 3"
  "digit_key cpython311 (ustr ''clip'' @ [178] @ ustr ''.mp4'') = Inl ValueError"
  by (simp_all add: eval_key ustr_def sep_def basename_def)




lemmas eval_discover = PhotoDiscovery_discover_def discover_photos_def fs_of_def
  PhotoDiscovery_photo_from_path_def PhotoDiscovery_sort_photo_list_def list_sort_def Photo_def
  VideoDiscoverer_discover_def VideoDiscoverer_sort_list_def Video_def

lemmas eval_exif = ExifPhotoDiscoverer_photo_from_path_def example_ep_def example_tags_def
  py_not_def Photo_def Let_def ustr_def

lemma example_candidates:
  "photo_candidate (ustr ''a_1.jpg'')" "photo_candidate (ustr ''b_2.jpg'')" "photo_candidate
      (ustr ''c_3.jpg'')"
  "photo_candidate (ustr ''e_4.jpg'')"
  by (simp_all add: photo_candidate_def str_contains_sublist [symmetric] eval_path)

lemma example_from_path:
  "ExifPhotoDiscoverer_photo_from_path example_ep (ustr ''d/a_1.jpg'') =
     Some \<lparr>path = ustr ''d/a_1.jpg'', index = None, latitude = Some 45, longitude = Some 7,
           exif_timestamp = None, gps_timestamp = Some 200, gps_speed = None,
           gps_altitude = None, gps_compass = None\<rparr>"
  "ExifPhotoDiscoverer_photo_from_path example_ep (ustr ''d/b_2.jpg'') =
     Some \<lparr>path = ustr ''d/b_2.jpg'', index = None, latitude = Some 46, longitude = Some 8,
           exif_timestamp = None, gps_timestamp = Some 100, gps_speed = Some 30,
           gps_altitude = None, gps_compass = None\<rparr>"
  "ExifPhotoDiscoverer_photo_from_path example_ep (ustr ''d/c_3.jpg'') = None"
  "ExifPhotoDiscoverer_photo_from_path example_ep (ustr ''d/e_4.jpg'') = None"
  by (simp_all add: eval_exif)

lemmas eval_exif_discover = ExifPhotoDiscoverer_discover_def discover_photos_def fs_of_def
  ExifPhotoDiscoverer_sort_photo_list_def list_sort_def timestamp_key_def

lemma exif_discover_paths:
  fixes ep :: "('t, 'v::{zero,linorder}) exif_processing"
  assumes d: "ExifPhotoDiscoverer_discover ep fs dir = Inr (recs, tag)" and r: "r \<in> set recs"
  shows "ExifPhotoDiscoverer_photo_from_path ep (path r) \<noteq> None"
proof (cases "isdir fs dir")
  case False
  with d have "recs = []"
    by (simp add: ExifPhotoDiscoverer_discover_def discover_photos_not_isdir)
  with r show ?thesis by simp
next
  case True
  show ?thesis
  proof (cases "listdir fs dir")
    case (Inl e)
    with True d show ?thesis
      by (simp add: ExifPhotoDiscoverer_discover_def discover_photos_def)
  next
    case (Inr files)
    let ?xs = "collect_photos (ExifPhotoDiscoverer_photo_from_path ep) dir files"
    let ?ys = "sort_key (\<lambda>r. the (gps_timestamp r)) ?xs"
    from d True Inr have "recs = assign_index 0 ?ys"
      by (simp add: ExifPhotoDiscoverer_discover_eq)
    then have "map path recs = map path ?ys"
      by (simp add: map_assign_index_frame)
    then have "set (map path recs) = set (map path ?ys)" by simp
    then have "path ` set recs = path ` set ?xs" by simp
    with r obtain x where x: "x \<in> set ?xs" "path x = path r" by (metis imageE imageI)
    from x(1) have "ExifPhotoDiscoverer_photo_from_path ep (path x) = Some x"
      by (rule collect_exif_fields(3))
    with x(2) show ?thesis by simp
  qed
qed

lemma splitext_basename:
  obtains a where "splitext e = (a @ fst (splitext (basename e)), snd (splitext (basename e)))"
proof -
  obtain a where e: "e = a @ basename e" and a: "a = [] \<or> suffix [sep] a"
    and b: "sep \<notin> set (basename e)"
    by (rule basename_decompose)
  from a b have "splitext (a @ basename e) =
      (a @ fst (splitext (basename e)), snd (splitext (basename e)))"
    by (rule splitext_append)
  with e that show ?thesis by simp
qed

lemma thumb_not_photo_candidate:
  assumes "basename e = ustr ''thumb_5.jpg''"
  shows "\<not> photo_candidate e"
proof -
  obtain a where "splitext e = (a @ fst (splitext (basename e)), snd (splitext (basename e)))"
    by (rule splitext_basename)
  moreover have "splitext (ustr ''thumb_5.jpg'') = (ustr ''thumb_5'', ustr ''.jpg'')"
    by (simp add: eval_path)
  ultimately have "fst (splitext e) = a @ ustr ''thumb_5''"
    using assms by simp
  then have "lower (fst (splitext e)) = lower a @ ustr ''thumb'' @ ustr ''_5''"
    by (simp add: lower_def lower_char_def ustr_def)
  then have "sublist (ustr ''thumb'') (lower (fst (splitext e)))"
    unfolding sublist_def by blast
  then show ?thesis by (simp add: photo_candidate_def)
qed

lemma mp4_not_photo_candidate:
  assumes "basename e = ustr ''clip_3.mp4''"
  shows "\<not> photo_candidate e"
proof -
  obtain a where "splitext e = (a @ fst (splitext (basename e)), snd (splitext (basename e)))"
    by (rule splitext_basename)
  moreover have "splitext (ustr ''clip_3.mp4'') = (ustr ''clip_3'', ustr ''.mp4'')"
    by (simp add: eval_path)
  ultimately have "snd (splitext e) = ustr ''.mp4''"
    using assms by simp
  then show ?thesis
    by (simp add: photo_candidate_def str_contains_sublist [symmetric] ustr_def)
qed

lemma jpg_not_video_candidate:
  assumes "basename e = ustr ''clip_3.jpg''"
  shows "\<not> video_candidate e"
proof -
  obtain a where "splitext e = (a @ fst (splitext (basename e)), snd (splitext (basename e)))"
    by (rule splitext_basename)
  moreover have "splitext (ustr ''clip_3.jpg'') = (ustr ''clip_3'', ustr ''.jpg'')"
    by (simp add: eval_path)
  ultimately have "snd (splitext e) = ustr ''.jpg''"
    using assms by simp
  then show ?thesis
    by (simp add: video_candidate_def str_contains_sublist [symmetric] ustr_def)
qed

lemma clip_candidates:
  "photo_candidate (ustr ''clip_3.jpg'')" "video_candidate (ustr ''clip_3.mp4'')"
  by (simp_all add: photo_candidate_def video_candidate_def str_contains_sublist [symmetric]
      eval_path)

lemma mset_path_assign_index_sort:
  "mset (map path (assign_index i (sort_key k xs))) = mset (map path xs)"
proof -
  have "map path (assign_index i (sort_key k xs)) = map path (sort_key k xs)"
    by (rule map_assign_index_frame) simp
  then show ?thesis by simp
qed

lemma PhotoDiscovery_discover_paths:
  assumes "isdir fs dir" and "listdir fs dir = Inr files"
    and "(PhotoDiscovery_discover py fs dir :: error + ('v photo list \<times> string)) = Inr (recs, tag)"
  shows "mset (map path recs) = mset (map (join dir) (filter photo_candidate files))"
proof -
  let ?xs = "map (\<lambda>e. Photo (join dir e)) (filter photo_candidate files) :: 'v photo list"
  from assms have "recs = assign_index 0 (sort_key (\<lambda>r. projr (digit_key py (path r))) ?xs)"
    by (simp add: PhotoDiscovery_discover_eq split: if_splits)
  then have "mset (map path recs) = mset (map path ?xs)"
    by (simp only: mset_path_assign_index_sort)
  also have "map path ?xs = map (join dir) (filter photo_candidate files)"
    by (simp add: path_Photo comp_def)
  finally show ?thesis .
qed

lemma map_path_exif_map_filter:
  "map path (List.map_filter (\<lambda>e. ExifPhotoDiscoverer_photo_from_path ep (join dir e)) es) =
   map (join dir) (filter (\<lambda>e. ExifPhotoDiscoverer_photo_from_path ep (join dir e) \<noteq> None) es)"
  by (induction es)
     (auto simp: List.map_filter_simps exif_photo_from_path_fields(1) split: option.splits)

lemma ExifPhotoDiscoverer_discover_paths:
  fixes ep :: "('t, 'v::{zero,linorder}) exif_processing"
  assumes "isdir fs dir" and "listdir fs dir = Inr files"
    and "ExifPhotoDiscoverer_discover ep fs dir = Inr (recs, tag)"
  shows "mset (map path recs) =
     mset (map (join dir)
       (filter (\<lambda>e. photo_candidate e \<and>
          ExifPhotoDiscoverer_photo_from_path ep (join dir e) \<noteq> None) files))"
proof -
  let ?xs = "collect_photos (ExifPhotoDiscoverer_photo_from_path ep) dir files"
  from assms have "recs = assign_index 0 (sort_key (\<lambda>r. the (gps_timestamp r)) ?xs)"
    by (simp add: ExifPhotoDiscoverer_discover_eq)
  then have "mset (map path recs) = mset (map path ?xs)"
    by (simp only: mset_path_assign_index_sort)
  also have "map path ?xs = map (join dir)
       (filter (\<lambda>e. photo_candidate e \<and>
          ExifPhotoDiscoverer_photo_from_path ep (join dir e) \<noteq> None) files)"
    by (simp add: collect_photos_eq map_path_exif_map_filter conj_commute)
  finally show ?thesis .
qed

lemma VideoDiscoverer_discover_paths:
  assumes "isdir fs dir" and "listdir fs dir = Inr files"
    and "VideoDiscoverer_discover py fs dir = Inr (recs, tag)"
  shows "mset (map path recs) = mset (map (join dir) (filter video_candidate files))"
proof -
  let ?xs = "map (\<lambda>e. Video (join dir e)) (filter video_candidate files)"
  from assms have "recs = assign_index 0 (sort_key (\<lambda>r. projr (digit_key py (path r))) ?xs)"
    by (simp add: VideoDiscoverer_discover_eq split: if_splits)
  then have "mset (map path recs) = mset (map path ?xs)"
    by (simp only: mset_path_assign_index_sort)
  also have "map path ?xs = map (join dir) (filter video_candidate files)"
    by (simp add: path_Video comp_def)
  finally show ?thesis .
qed

lemma discover_Inr_cases:
  assumes "discover_photos from_path sort_photo_list fs dir = Inr (recs, tag)"
  obtains "recs = []" | files where "isdir fs dir" and "listdir fs dir = Inr files"
  using assms by (auto simp: discover_photos_def split: if_splits sum.splits)

lemma VideoDiscoverer_discover_Inr_cases:
  assumes "VideoDiscoverer_discover py fs dir = Inr (recs, tag)"
  obtains "recs = []" | files where "isdir fs dir" and "listdir fs dir = Inr files"
  using assms by (auto simp: VideoDiscoverer_discover_def split: if_splits sum.splits)

lemma mset_paths_entry:
  assumes "mset (map path recs) = mset (map (join dir) (filter P files))" and "r \<in> set recs"
  obtains e where "e \<in> set files" and "P e" and "path r = join dir e"
proof -
  from assms(2) have "path r \<in> set (map path recs)" by simp
  then have "path r \<in> set (map (join dir) (filter P files))"
    using assms(1) by (metis mset_eq_setD)
  then show ?thesis using that by auto
qed

lemma entry_mset_paths:
  assumes "mset (map path recs) = mset (map (join dir) (filter P files))"
    and "e \<in> set files" and "P e"
  shows "join dir e \<in> path ` set recs"
proof -
  from assms(2,3) have "join dir e \<in> set (map (join dir) (filter P files))" by simp
  then have "join dir e \<in> set (map path recs)"
    using assms(1) by (metis mset_eq_setD)
  then show ?thesis by simp
qed

lemma photo_output_basenames:
  assumes d: "discover_photos from_path sort_photo_list fs dir = Inr (recs, tag)"
    and r: "r \<in> set recs"
    and m: "\<And>files. isdir fs dir \<Longrightarrow> listdir fs dir = Inr files \<Longrightarrow>
      \<exists>P. mset (map path recs) =
        mset (map (join dir) (filter (\<lambda>e. photo_candidate e \<and> P e) files))"
  shows "basename (path r) \<noteq> ustr ''thumb_5.jpg'' \<and> basename (path r) \<noteq> ustr ''clip_3.mp4''"
  using d
proof (cases rule: discover_Inr_cases)
  case 1
  with r show ?thesis by simp
next
  case (2 files)
  from m [OF 2] obtain P where
    "mset (map path recs) = mset (map (join dir) (filter (\<lambda>e. photo_candidate e \<and> P e) files))"
    by blast
  from this r obtain e where e: "photo_candidate e \<and> P e" "path r = join dir e"
    by (rule mset_paths_entry)
  from e(2) have "basename (path r) = basename e" by (simp add: basename_join)
  with e(1) thumb_not_photo_candidate [of e] mp4_not_photo_candidate [of e]
  show ?thesis by auto
qed

lemma exif_photo_from_path_cong:
  assumes "extractor_results ep1 p = extractor_results ep2 p"
  shows "ExifPhotoDiscoverer_photo_from_path ep1 p = ExifPhotoDiscoverer_photo_from_path ep2 p"
  using assms
  by (simp add: ExifPhotoDiscoverer_photo_from_path_def extractor_results_def Let_def path_Photo)

lemma collect_photos_cong:
  "(\<And>e. e \<in> set files \<Longrightarrow> f (join dir e) = g (join dir e)) \<Longrightarrow>
     collect_photos f dir files = collect_photos g dir files"
proof (induction files)
  case Nil
  show ?case by simp
next
  case (Cons a files)
  have "collect_photos f dir files = collect_photos g dir files"
    by (rule Cons.IH) (simp add: Cons.prems)
  moreover have "f (join dir a) = g (join dir a)"
    by (rule Cons.prems) simp
  ultimately show ?case by (simp split: prod.splits option.splits)
qed

section \<open>The claims\<close>

text \<open>
  C3.  For a path that is not an existing directory, every policy returns the empty list
  with its type tag, \<open>([], "photo")\<close> for the two photo policies and \<open>([], "video")\<close> for
  the video policy, and raises nothing: the result is an \<open>Inr\<close>, whatever the listing
  of the path or the extractor would do.
\<close>

theorem discover_not_a_directory:
  "\<not> isdir fs dir \<Longrightarrow>
     (PhotoDiscovery_discover py fs dir :: error + ('v photo list \<times> string)) = Inr ([], ''photo'') \<and>
     ExifPhotoDiscoverer_discover ep fs dir = Inr ([], ''photo'') \<and>
     VideoDiscoverer_discover py fs dir = Inr ([], ''video'')"
  by (simp add: PhotoDiscovery_discover_def ExifPhotoDiscoverer_discover_def
      discover_photos_not_isdir VideoDiscoverer_discover_def)

theorem discover_not_a_directory_witness:
  "\<not> isdir (fs_of (ustr ''d'') [ustr ''img_1.jpg'']) (ustr ''missing'') \<and>
   (PhotoDiscovery_discover cpython311 (fs_of (ustr ''d'') [ustr ''img_1.jpg'']) (ustr ''missing'')
      :: error + (int photo list \<times> string)) = Inr ([], ''photo'') \<and>
   ExifPhotoDiscoverer_discover example_ep (fs_of (ustr ''d'') [ustr ''img_1.jpg''])
       (ustr ''missing'') =
     Inr ([], ''photo'') \<and>
   VideoDiscoverer_discover cpython311 (fs_of (ustr ''d'') [ustr ''img_1.jpg''])
       (ustr ''missing'') = Inr ([], ''video'')"
proof -
  have h: "\<not> isdir (fs_of (ustr ''d'') [ustr ''img_1.jpg'']) (ustr ''missing'')"
    by (simp add: fs_of_def ustr_def)
  from h discover_not_a_directory [OF h, where ep = example_ep and py = cpython311 and 'v = int]
  show ?thesis by blast
qed

text \<open>
  C6.  When a discovery call returns \<open>N\<close> records, their index fields are
  \<open>0, 1, \<dots>, N - 1\<close> in the order of the returned list, which is the sort order: no gap,
  no duplicate, index \<open>0\<close> on the first record.  This holds for the plain photo policy,
  the metadata-validated photo policy and the video policy.
\<close>

theorem index_contiguous:
  "((PhotoDiscovery_discover py fs dir :: error + ('v photo list \<times> string)) = Inr (recs, tag) \<longrightarrow>
      map index recs = map (\<lambda>k. Some (int k)) [0..<length recs]) \<and>
   (ExifPhotoDiscoverer_discover ep fs dir = Inr (xrecs, xtag) \<longrightarrow>
      map index xrecs = map (\<lambda>k. Some (int k)) [0..<length xrecs]) \<and>
   (VideoDiscoverer_discover py fs dir = Inr (vrecs, vtag) \<longrightarrow>
      map index vrecs = map (\<lambda>k. Some (int k)) [0..<length vrecs])"
proof -
  have videos: "map index vrecs = map (\<lambda>k. Some (int k)) [0..<length vrecs]"
    if v: "VideoDiscoverer_discover py fs dir = Inr (vrecs, vtag)"
  proof (cases "isdir fs dir")
    case True
    from v True obtain videos where "vrecs = assign_index 0 videos"
      by (rule VideoDiscoverer_discover_Inr)
    then show ?thesis
      by (simp add: map_index_assign_index length_assign_index)
  next
    case False
    with v show ?thesis by (simp add: VideoDiscoverer_discover_def)
  qed
  show ?thesis
    unfolding PhotoDiscovery_discover_def ExifPhotoDiscoverer_discover_def
    by (intro conjI impI) (erule discover_photos_index videos)+
qed

theorem index_contiguous_witness:
  "(PhotoDiscovery_discover cpython311
      (fs_of (ustr ''d'') [ustr ''b_2.jpg'', ustr ''a_1.jpg'', ustr ''clip_3.mp4'']) (ustr ''d'')
      :: error + (int photo list \<times> string)) =
     Inr ([(Photo (ustr ''d/a_1.jpg''))\<lparr>index := Some 0\<rparr>,
         (Photo (ustr ''d/b_2.jpg''))\<lparr>index := Some 1\<rparr>],
          ''photo'') \<and>
   map index [(Photo (ustr ''d/a_1.jpg'') :: int photo)\<lparr>index := Some 0\<rparr>,
              (Photo (ustr ''d/b_2.jpg''))\<lparr>index := Some 1\<rparr>] = [Some 0, Some 1] \<and>
   (\<exists>xrecs. ExifPhotoDiscoverer_discover example_ep
        (fs_of (ustr ''d'') [ustr ''b_2.jpg'', ustr ''a_1.jpg'', ustr ''clip_3.mp4''])
            (ustr ''d'') = Inr (xrecs, ''photo'') \<and>
      map path xrecs = [ustr ''d/b_2.jpg'', ustr ''d/a_1.jpg''] \<and>
      map index xrecs = [Some 0, Some 1]) \<and>
   VideoDiscoverer_discover cpython311
       (fs_of (ustr ''d'') [ustr ''b_2.jpg'', ustr ''a_1.jpg'', ustr ''clip_3.mp4'']) (ustr ''d'') =
     Inr ([(Video (ustr ''d/clip_3.mp4''))\<lparr>index := Some 0\<rparr>], ''video'') \<and>
   map index [(Video (ustr ''d/clip_3.mp4''))\<lparr>index := Some 0\<rparr>] = [Some 0]"
proof -
  let ?F = "fs_of (ustr ''d'') [ustr ''b_2.jpg'', ustr ''a_1.jpg'', ustr ''clip_3.mp4'']"
  let ?R = "[(Photo (ustr ''d/a_1.jpg'') :: int photo)\<lparr>index := Some 0\<rparr>,
             (Photo (ustr ''d/b_2.jpg''))\<lparr>index := Some 1\<rparr>]"
  let ?V = "[(Video (ustr ''d/clip_3.mp4''))\<lparr>index := Some 0\<rparr>]"
  obtain X where x: "ExifPhotoDiscoverer_discover example_ep ?F (ustr ''d'') = Inr (X, ''photo'')"
    and xp: "map path X = [ustr ''d/b_2.jpg'', ustr ''d/a_1.jpg'']"
    by (simp add: eval_exif_discover eval_path eval_exif)
  have p: "PhotoDiscovery_discover cpython311 ?F (ustr ''d'') = Inr (?R, ''photo'')"
    by (simp add: eval_discover eval_path eval_key)
  have v: "VideoDiscoverer_discover cpython311 ?F (ustr ''d'') = Inr (?V, ''video'')"
    by (simp add: eval_discover eval_path eval_key)
  note t = index_contiguous
      [of cpython311 ?F "ustr ''d''" ?R "''photo''" example_ep X "''photo''" ?V "''video''"]
  from xp have l: "length X = 2" by (metis length_map length_Cons list.size(3) numeral_2_eq_2)
  have u: "[0..<2] = [0, 1]" by (simp add: upt_rec)
  from t p have "map index ?R = map (\<lambda>k. Some (int k)) [0..<length ?R]" by blast
  then have ri: "map index ?R = [Some 0, Some 1]" by (simp add: u)
  from t x have "map index X = map (\<lambda>k. Some (int k)) [0..<length X]" by blast
  then have xi: "map index X = [Some 0, Some 1]" by (simp add: l u)
  from t v have "map index ?V = map (\<lambda>k. Some (int k)) [0..<length ?V]" by blast
  then have vi: "map index ?V = [Some 0]" by simp
  from x xp xi have e: "\<exists>xrecs. ExifPhotoDiscoverer_discover example_ep ?F (ustr ''d'') =
      Inr (xrecs, ''photo'') \<and> map path xrecs = [ustr ''d/b_2.jpg'', ustr ''d/a_1.jpg''] \<and>
      map index xrecs = [Some 0, Some 1]"
    by (intro exI [of _ X] conjI)
  show ?thesis
    by (rule conjI [OF p conjI [OF ri conjI [OF e conjI [OF v vi]]]])
qed




text \<open>
  C5.  For a directory whose listing succeeds, metadata-validated photo discovery returns,
  and the returned records are sorted ascending by \<open>gps_timestamp\<close>, which every one of
  them carries.  The sort is stable: the records with one and the same timestamp stand in
  the order in which the loop over the listing built them.  In particular, two candidates
  with timestamps \<open>t1 < t2\<close> are returned as the \<open>t1\<close> record with index \<open>0\<close> followed
  by the \<open>t2\<close> record with index \<open>1\<close>, in whichever order the directory lists them.
\<close>

theorem exif_sorted_by_gps_timestamp:
  fixes ep :: "('t, 'v::{zero,linorder}) exif_processing"
  shows
  "(isdir fs dir \<and> listdir fs dir = Inr files \<longrightarrow>
      (\<exists>recs. ExifPhotoDiscoverer_discover ep fs dir = Inr (recs, ''photo'') \<and>
         (\<exists>ts. map gps_timestamp recs = map Some ts \<and> sorted ts) \<and>
         (\<forall>t. filter (\<lambda>r. gps_timestamp r = Some t) (map (\<lambda>r. r\<lparr>index := None\<rparr>) recs) =
              filter (\<lambda>r. gps_timestamp r = Some t)
                (collect_photos (ExifPhotoDiscoverer_photo_from_path ep) dir files)))) \<and>
   (isdir fs dir \<and> listdir fs dir = Inr files \<and> (files = [a, b] \<or> files = [b, a]) \<and>
    photo_candidate a \<and> photo_candidate b \<and>
    ExifPhotoDiscoverer_photo_from_path ep (join dir a) = Some ra \<and>
    ExifPhotoDiscoverer_photo_from_path ep (join dir b) = Some rb \<and>
    gps_timestamp ra = Some t1 \<and> gps_timestamp rb = Some t2 \<and> t1 < t2 \<longrightarrow>
      ExifPhotoDiscoverer_discover ep fs dir =
        Inr ([ra\<lparr>index := Some 0\<rparr>, rb\<lparr>index := Some 1\<rparr>], ''photo''))"
proof (intro conjI impI)
  assume "isdir fs dir \<and> listdir fs dir = Inr files"
  then show "\<exists>recs. ExifPhotoDiscoverer_discover ep fs dir = Inr (recs, ''photo'') \<and>
         (\<exists>ts. map gps_timestamp recs = map Some ts \<and> sorted ts) \<and>
         (\<forall>t. filter (\<lambda>r. gps_timestamp r = Some t) (map (\<lambda>r. r\<lparr>index := None\<rparr>) recs) =
              filter (\<lambda>r. gps_timestamp r = Some t)
                (collect_photos (ExifPhotoDiscoverer_photo_from_path ep) dir files))"
    using exif_discover_sorted_stable [of fs dir files ep] by blast
next
  assume h: "isdir fs dir \<and> listdir fs dir = Inr files \<and> (files = [a, b] \<or> files = [b, a]) \<and>
    photo_candidate a \<and> photo_candidate b \<and>
    ExifPhotoDiscoverer_photo_from_path ep (join dir a) = Some ra \<and>
    ExifPhotoDiscoverer_photo_from_path ep (join dir b) = Some rb \<and>
    gps_timestamp ra = Some t1 \<and> gps_timestamp rb = Some t2 \<and> t1 < t2"
  show "ExifPhotoDiscoverer_discover ep fs dir =
        Inr ([ra\<lparr>index := Some 0\<rparr>, rb\<lparr>index := Some 1\<rparr>], ''photo'')"
    by (rule exif_discover_two [of fs dir files a b ep ra rb t1 t2]) (simp_all add: h)
qed

theorem exif_sorted_by_gps_timestamp_witness:
  "isdir (fs_of (ustr ''d'') [ustr ''a_1.jpg'', ustr ''b_2.jpg'']) (ustr ''d'') \<and>
   listdir (fs_of (ustr ''d'') [ustr ''a_1.jpg'', ustr ''b_2.jpg'']) (ustr ''d'') = Inr
       [ustr ''a_1.jpg'', ustr ''b_2.jpg''] \<and>
   photo_candidate (ustr ''a_1.jpg'') \<and> photo_candidate (ustr ''b_2.jpg'') \<and> (100 :: int) < 200 \<and>
   (\<exists>recs. ExifPhotoDiscoverer_discover example_ep
       (fs_of (ustr ''d'') [ustr ''a_1.jpg'', ustr ''b_2.jpg'']) (ustr ''d'') =
        Inr (recs, ''photo'') \<and>
      (\<exists>ts. map gps_timestamp recs = map Some ts \<and> sorted ts) \<and>
      (\<forall>t. filter (\<lambda>r. gps_timestamp r = Some t) (map (\<lambda>r. r\<lparr>index := None\<rparr>) recs) =
           filter (\<lambda>r. gps_timestamp r = Some t)
             (collect_photos (ExifPhotoDiscoverer_photo_from_path example_ep) (ustr ''d'')
                [ustr ''a_1.jpg'', ustr ''b_2.jpg'']))) \<and>
   ExifPhotoDiscoverer_discover example_ep
       (fs_of (ustr ''d'') [ustr ''a_1.jpg'', ustr ''b_2.jpg'']) (ustr ''d'') =
     Inr ([\<lparr>path = ustr ''d/b_2.jpg'', index = Some 0, latitude = Some 46, longitude = Some 8,
             exif_timestamp = None, gps_timestamp = Some 100, gps_speed = Some 30,
             gps_altitude = None, gps_compass = None\<rparr>,
           \<lparr>path = ustr ''d/a_1.jpg'', index = Some 1, latitude = Some 45, longitude = Some 7,
             exif_timestamp = None, gps_timestamp = Some 200, gps_speed = None,
             gps_altitude = None, gps_compass = None\<rparr>], ''photo'')"
proof -
  let ?F = "fs_of (ustr ''d'') [ustr ''a_1.jpg'', ustr ''b_2.jpg'']"
  let ?ra = "\<lparr>path = ustr ''d/a_1.jpg'', index = None, latitude = Some (45 :: int),
      longitude = Some 7, exif_timestamp = None, gps_timestamp = Some 200, gps_speed = None,
      gps_altitude = None, gps_compass = None\<rparr>"
  let ?rb = "\<lparr>path = ustr ''d/b_2.jpg'', index = None, latitude = Some (46 :: int),
      longitude = Some 8, exif_timestamp = None, gps_timestamp = Some 100,
      gps_speed = Some 30, gps_altitude = None, gps_compass = None\<rparr>"
  have j: "join (ustr ''d'') (ustr ''a_1.jpg'') = ustr ''d/a_1.jpg''" "join (ustr ''d'')
      (ustr ''b_2.jpg'') = ustr ''d/b_2.jpg''"
    by (simp_all add: join_def suffix_to_prefix ustr_def sep_def)
  have h1: "isdir ?F (ustr ''d'') \<and> listdir ?F (ustr ''d'') = Inr
      [ustr ''a_1.jpg'', ustr ''b_2.jpg'']"
    by (simp add: fs_of_def ustr_def)
  have h2: "isdir ?F (ustr ''d'') \<and> listdir ?F (ustr ''d'') = Inr
      [ustr ''a_1.jpg'', ustr ''b_2.jpg''] \<and>
      ([ustr ''a_1.jpg'', ustr ''b_2.jpg''] = [ustr ''b_2.jpg'', ustr ''a_1.jpg''] \<or>
       [ustr ''a_1.jpg'', ustr ''b_2.jpg''] = [ustr ''a_1.jpg'', ustr ''b_2.jpg'']) \<and>
      photo_candidate (ustr ''b_2.jpg'') \<and> photo_candidate (ustr ''a_1.jpg'') \<and>
      ExifPhotoDiscoverer_photo_from_path example_ep (join (ustr ''d'') (ustr ''b_2.jpg'')) = Some
          ?rb \<and>
      ExifPhotoDiscoverer_photo_from_path example_ep (join (ustr ''d'') (ustr ''a_1.jpg'')) = Some
          ?ra \<and>
      gps_timestamp ?rb = Some 100 \<and> gps_timestamp ?ra = Some 200 \<and> (100 :: int) < 200"
    using h1 by (simp add: j example_candidates example_from_path)
  note t = exif_sorted_by_gps_timestamp
    [of ?F "ustr ''d''" "[ustr ''a_1.jpg'', ustr ''b_2.jpg'']" example_ep "ustr ''b_2.jpg''"
        "ustr ''a_1.jpg''" ?rb ?ra
      100 200]
  from t h1 have e: "\<exists>recs. ExifPhotoDiscoverer_discover example_ep ?F (ustr ''d'') = Inr
      (recs, ''photo'') \<and>
      (\<exists>ts. map gps_timestamp recs = map Some ts \<and> sorted ts) \<and>
      (\<forall>t. filter (\<lambda>r. gps_timestamp r = Some t) (map (\<lambda>r. r\<lparr>index := None\<rparr>) recs) =
           filter (\<lambda>r. gps_timestamp r = Some t)
             (collect_photos (ExifPhotoDiscoverer_photo_from_path example_ep) (ustr ''d'')
                [ustr ''a_1.jpg'', ustr ''b_2.jpg'']))"
    by (rule conjunct1 [THEN mp])
  from t h2 have "ExifPhotoDiscoverer_discover example_ep ?F (ustr ''d'') =
      Inr ([?rb\<lparr>index := Some 0\<rparr>, ?ra\<lparr>index := Some 1\<rparr>], ''photo'')"
    by (rule conjunct2 [THEN mp])
  then have r: "ExifPhotoDiscoverer_discover example_ep ?F (ustr ''d'') =
     Inr ([\<lparr>path = ustr ''d/b_2.jpg'', index = Some 0, latitude = Some 46, longitude = Some 8,
             exif_timestamp = None, gps_timestamp = Some 100, gps_speed = Some 30,
             gps_altitude = None, gps_compass = None\<rparr>,
           \<lparr>path = ustr ''d/a_1.jpg'', index = Some 1, latitude = Some 45, longitude = Some 7,
             exif_timestamp = None, gps_timestamp = Some 200, gps_speed = None,
             gps_altitude = None, gps_compass = None\<rparr>], ''photo'')"
    by simp
  from h1 example_candidates(1,2) e r show ?thesis by (intro conjI) simp_all
qed

text \<open>
  C9.  The check of the mandatory trio in metadata-validated discovery is \<open>not x\<close>, a test
  of the truth value: the builder returns no record exactly when the latitude, the
  longitude or the GPS timestamp the extractor yields is absent or is present and equal
  to \<open>0\<close>.  So a candidate with a present latitude \<open>0\<close>, longitude \<open>0\<close> or GPS timestamp
  \<open>0\<close> is dropped as one whose field is absent is: no record of a returned list has its
  path.
\<close>

theorem zero_is_dropped_like_absent:
  fixes ep :: "('t, 'v::{zero,linorder}) exif_processing"
  shows
  "(ExifPhotoDiscoverer_photo_from_path ep p = None \<longleftrightarrow>
      ep_gps_latitude ep (ep_all_tags ep p) = None \<or>
      ep_gps_latitude ep (ep_all_tags ep p) = Some 0 \<or>
      ep_gps_longitude ep (ep_all_tags ep p) = None \<or>
      ep_gps_longitude ep (ep_all_tags ep p) = Some 0 \<or>
      ep_gps_timestamp ep (ep_all_tags ep p) = None \<or>
      ep_gps_timestamp ep (ep_all_tags ep p) = Some 0) \<and>
   (ExifPhotoDiscoverer_discover ep fs dir = Inr (recs, tag) \<and>
    (ep_gps_latitude ep (ep_all_tags ep p) = Some 0 \<or>
     ep_gps_longitude ep (ep_all_tags ep p) = Some 0 \<or>
     ep_gps_timestamp ep (ep_all_tags ep p) = Some 0) \<longrightarrow>
      p \<notin> path ` set recs)"
proof (intro conjI impI)
  show "ExifPhotoDiscoverer_photo_from_path ep p = None \<longleftrightarrow>
      ep_gps_latitude ep (ep_all_tags ep p) = None \<or>
      ep_gps_latitude ep (ep_all_tags ep p) = Some 0 \<or>
      ep_gps_longitude ep (ep_all_tags ep p) = None \<or>
      ep_gps_longitude ep (ep_all_tags ep p) = Some 0 \<or>
      ep_gps_timestamp ep (ep_all_tags ep p) = None \<or>
      ep_gps_timestamp ep (ep_all_tags ep p) = Some 0"
    unfolding exif_photo_from_path_None_iff py_not_def
    by (auto split: option.splits)
next
  assume h: "ExifPhotoDiscoverer_discover ep fs dir = Inr (recs, tag) \<and>
    (ep_gps_latitude ep (ep_all_tags ep p) = Some 0 \<or>
     ep_gps_longitude ep (ep_all_tags ep p) = Some 0 \<or>
     ep_gps_timestamp ep (ep_all_tags ep p) = Some 0)"
  then have n: "ExifPhotoDiscoverer_photo_from_path ep p = None"
    unfolding exif_photo_from_path_None_iff py_not_def by auto
  show "p \<notin> path ` set recs"
  proof
    assume "p \<in> path ` set recs"
    then obtain r where "r \<in> set recs" "p = path r" by auto
    with h exif_discover_paths [of ep fs dir recs tag r] n show False by simp
  qed
qed

theorem zero_is_dropped_like_absent_witness:
  "ep_gps_latitude example_ep (ep_all_tags example_ep (ustr ''d/e_4.jpg'')) = Some 0 \<and>
   ExifPhotoDiscoverer_photo_from_path example_ep (ustr ''d/e_4.jpg'') = None \<and>
   ExifPhotoDiscoverer_photo_from_path example_ep (ustr ''d/c_3.jpg'') = None \<and>
   ExifPhotoDiscoverer_discover example_ep
       (fs_of (ustr ''d'') [ustr ''a_1.jpg'', ustr ''e_4.jpg'']) (ustr ''d'') =
     Inr ([\<lparr>path = ustr ''d/a_1.jpg'', index = Some 0, latitude = Some 45, longitude = Some 7,
             exif_timestamp = None, gps_timestamp = Some 200, gps_speed = None,
             gps_altitude = None, gps_compass = None\<rparr>], ''photo'') \<and>
   (ustr ''d/e_4.jpg'') \<notin> path ` set
     [\<lparr>path = ustr ''d/a_1.jpg'', index = Some 0, latitude = Some (45 :: int), longitude = Some 7,
        exif_timestamp = None, gps_timestamp = Some 200, gps_speed = None,
        gps_altitude = None, gps_compass = None\<rparr>]"
proof -
  let ?R = "[\<lparr>path = ustr ''d/a_1.jpg'', index = Some 0, latitude = Some (45 :: int),
      longitude = Some 7, exif_timestamp = None, gps_timestamp = Some 200, gps_speed = None,
      gps_altitude = None, gps_compass = None\<rparr>]"
  let ?F = "fs_of (ustr ''d'') [ustr ''a_1.jpg'', ustr ''e_4.jpg'']"
  have z: "ep_gps_latitude example_ep (ep_all_tags example_ep (ustr ''d/e_4.jpg'')) = Some 0"
    by (simp add: example_ep_def example_tags_def ustr_def)
  have d: "ExifPhotoDiscoverer_discover example_ep ?F (ustr ''d'') = Inr (?R, ''photo'')"
    by (simp add: eval_exif_discover eval_path eval_exif)
  note t = zero_is_dropped_like_absent
      [of example_ep "ustr ''d/e_4.jpg''" ?F "ustr ''d''" ?R "''photo''"]
  from t z have n: "ExifPhotoDiscoverer_photo_from_path example_ep (ustr ''d/e_4.jpg'') = None"
    by blast
  from t z d have m: "ustr ''d/e_4.jpg'' \<notin> path ` set ?R" by blast
  from z n m d example_from_path(3) show ?thesis by blast
qed

text \<open>
  C1.  The claim is that a candidate of metadata-validated discovery is returned if and
  only if its GPS timestamp, latitude and longitude are all present.  The code drops a
  candidate whose three mandatory values are present when one of them is zero: for
  \<open>e_4.jpg\<close> the extractor yields the timestamp \<open>120\<close>, the latitude \<open>0\<close> and the
  longitude \<open>9\<close>, the builder returns no record and discovery returns the empty list.
  (The direction of the claim about absent values, and that the optional values play no
  part, is lemma \<open>exif_photo_from_path_None_iff\<close>.)
\<close>

theorem equator_photo_is_dropped:
  "extractor_results example_ep (ustr ''d/e_4.jpg'') =
     [Some 120, Some 0, Some 9, None, None, None, None] \<and>
   photo_candidate (ustr ''e_4.jpg'') \<and>
   ExifPhotoDiscoverer_photo_from_path example_ep (ustr ''d/e_4.jpg'') = None \<and>
   ExifPhotoDiscoverer_discover example_ep (fs_of (ustr ''d'') [ustr ''e_4.jpg'']) (ustr ''d'') =
     Inr ([], ''photo'')"
proof -
  have a: "extractor_results example_ep (ustr ''d/e_4.jpg'') =
      [Some 120, Some 0, Some 9, None, None, None, None]"
    by (simp add: extractor_results_def example_ep_def example_tags_def ustr_def)
  have d: "ExifPhotoDiscoverer_discover example_ep (fs_of (ustr ''d'') [ustr ''e_4.jpg''])
      (ustr ''d'') = Inr ([], ''photo'')"
    by (simp add: eval_exif_discover eval_path eval_exif)
  show ?thesis
    by (rule conjI [OF a conjI [OF example_candidates(4) conjI [OF example_from_path(4) d]]])
qed

text \<open>
  C7.  The claim is that a discovery call over a directory whose listing succeeds returns
  whatever the single entries are, a candidate without a digit in its name included.
  Plain photo discovery over the listing \<open>img_1.jpg\<close>, \<open>photo.jpg\<close> raises \<open>ValueError\<close>
  on every interpreter that satisfies \<open>python_ok\<close>: no character of \<open>photo.jpg\<close> is a
  digit, and its sort key is \<open>int("")\<close>.  (Metadata-validated discovery does return for
  every listing, lemma \<open>ExifPhotoDiscoverer_discover_eq\<close>.  Plain photo discovery and video
  discovery return exactly when \<open>int\<close> accepts the digits of every candidate name, lemmas
  \<open>PhotoDiscovery_discover_eq\<close> and \<open>VideoDiscoverer_discover_eq\<close>.)
\<close>

theorem digit_free_name_raises:
  assumes "python_ok py"
  shows
  "isdir (fs_of (ustr ''d'') [ustr ''img_1.jpg'', ustr ''photo.jpg'']) (ustr ''d'') \<and>
   listdir (fs_of (ustr ''d'') [ustr ''img_1.jpg'', ustr ''photo.jpg'']) (ustr ''d'') =
     Inr [ustr ''img_1.jpg'', ustr ''photo.jpg''] \<and>
   (PhotoDiscovery_discover py (fs_of (ustr ''d'') [ustr ''img_1.jpg'', ustr ''photo.jpg''])
      (ustr ''d'') :: error + ('v photo list \<times> string)) = Inl ValueError"
  using assms by (simp add: eval_discover eval_path eval_ascii)

theorem digit_free_name_raises_witness:
  "python_ok cpython311 \<and>
   isdir (fs_of (ustr ''d'') [ustr ''img_1.jpg'', ustr ''photo.jpg'']) (ustr ''d'') \<and>
   listdir (fs_of (ustr ''d'') [ustr ''img_1.jpg'', ustr ''photo.jpg'']) (ustr ''d'') =
     Inr [ustr ''img_1.jpg'', ustr ''photo.jpg''] \<and>
   (PhotoDiscovery_discover cpython311
      (fs_of (ustr ''d'') [ustr ''img_1.jpg'', ustr ''photo.jpg'']) (ustr ''d'')
      :: error + (int photo list \<times> string)) = Inl ValueError"
  by (rule conjI [OF cpython311_ok digit_free_name_raises [OF cpython311_ok]])

text \<open>
  C4.  The loop of photo discovery hands an entry to the record builder exactly when its
  extension (as \<open>os.path.splitext\<close> gives it) contains \<open>jpg\<close> or \<open>jpeg\<close> and its name
  without the extension, in lower case, does not contain \<open>thumb\<close>; the loop of video
  discovery builds a record exactly for the entries whose extension contains \<open>mp4\<close>.  So
  the paths of the returned records are, up to order, the joined paths of the candidate
  entries: all of them for plain photo and for video discovery, those whose builder
  returns a record for metadata-validated discovery.  Consequently no record of either
  photo policy has the file name \<open>thumb_5.jpg\<close> or \<open>clip_3.mp4\<close>, no video record has the
  file name \<open>clip_3.jpg\<close>, a listed \<open>clip_3.jpg\<close> is in the output of plain photo
  discovery and a listed \<open>clip_3.mp4\<close> in the output of video discovery.
\<close>

theorem candidate_filters:
  fixes ep :: "('t, 'v::{zero,linorder}) exif_processing"
    and from_path :: "pystr \<Rightarrow> 'w photo option"
    and recs xrecs :: "'v photo list"
  shows
  "collect_photos from_path dir files =
     List.map_filter (\<lambda>e. from_path (join dir e)) (filter photo_candidate files) \<and>
   collect_videos dir files =
     map (\<lambda>e. Video (join dir e)) (filter video_candidate files) \<and>
   (isdir fs dir \<and> listdir fs dir = Inr files \<and>
    PhotoDiscovery_discover py fs dir = Inr (recs, tag) \<longrightarrow>
      mset (map path recs) = mset (map (join dir) (filter photo_candidate files))) \<and>
   (isdir fs dir \<and> listdir fs dir = Inr files \<and>
    ExifPhotoDiscoverer_discover ep fs dir = Inr (xrecs, xtag) \<longrightarrow>
      mset (map path xrecs) =
        mset (map (join dir)
          (filter (\<lambda>e. photo_candidate e \<and>
             ExifPhotoDiscoverer_photo_from_path ep (join dir e) \<noteq> None) files))) \<and>
   (isdir fs dir \<and> listdir fs dir = Inr files \<and>
    VideoDiscoverer_discover py fs dir = Inr (vrecs, vtag) \<longrightarrow>
      mset (map path vrecs) = mset (map (join dir) (filter video_candidate files))) \<and>
   (PhotoDiscovery_discover py fs dir = Inr (recs, tag) \<longrightarrow>
      (\<forall>r\<in>set recs. basename (path r) \<noteq> ustr ''thumb_5.jpg'' \<and>
         basename (path r) \<noteq> ustr ''clip_3.mp4'')) \<and>
   (ExifPhotoDiscoverer_discover ep fs dir = Inr (xrecs, xtag) \<longrightarrow>
      (\<forall>r\<in>set xrecs. basename (path r) \<noteq> ustr ''thumb_5.jpg'' \<and>
         basename (path r) \<noteq> ustr ''clip_3.mp4'')) \<and>
   (VideoDiscoverer_discover py fs dir = Inr (vrecs, vtag) \<longrightarrow>
      (\<forall>r\<in>set vrecs. basename (path r) \<noteq> ustr ''clip_3.jpg'')) \<and>
   (isdir fs dir \<and> listdir fs dir = Inr files \<and> ustr ''clip_3.jpg'' \<in> set files \<and>
    PhotoDiscovery_discover py fs dir = Inr (recs, tag) \<longrightarrow>
      join dir (ustr ''clip_3.jpg'') \<in> path ` set recs) \<and>
   (isdir fs dir \<and> listdir fs dir = Inr files \<and> ustr ''clip_3.mp4'' \<in> set files \<and>
    VideoDiscoverer_discover py fs dir = Inr (vrecs, vtag) \<longrightarrow>
      join dir (ustr ''clip_3.mp4'') \<in> path ` set vrecs)"
proof (intro conjI impI ballI)
  show "collect_photos from_path dir files =
     List.map_filter (\<lambda>e. from_path (join dir e)) (filter photo_candidate files)"
    by (rule collect_photos_eq)
  show "collect_videos dir files =
     map (\<lambda>e. Video (join dir e)) (filter video_candidate files)"
    by (rule collect_videos_eq)
next
  assume "isdir fs dir \<and> listdir fs dir = Inr files \<and>
    PhotoDiscovery_discover py fs dir = Inr (recs, tag)"
  then show "mset (map path recs) = mset (map (join dir) (filter photo_candidate files))"
    using PhotoDiscovery_discover_paths [of fs dir files py recs tag] by blast
next
  assume "isdir fs dir \<and> listdir fs dir = Inr files \<and>
    ExifPhotoDiscoverer_discover ep fs dir = Inr (xrecs, xtag)"
  then show "mset (map path xrecs) =
        mset (map (join dir)
          (filter (\<lambda>e. photo_candidate e \<and>
             ExifPhotoDiscoverer_photo_from_path ep (join dir e) \<noteq> None) files))"
    using ExifPhotoDiscoverer_discover_paths [of fs dir files ep xrecs xtag] by blast
next
  assume "isdir fs dir \<and> listdir fs dir = Inr files \<and>
    VideoDiscoverer_discover py fs dir = Inr (vrecs, vtag)"
  then show "mset (map path vrecs) = mset (map (join dir) (filter video_candidate files))"
    using VideoDiscoverer_discover_paths [of fs dir files py vrecs vtag] by blast
next
  fix r
  assume d: "PhotoDiscovery_discover py fs dir = Inr (recs, tag)" and r: "r \<in> set recs"
  have "\<exists>P. mset (map path recs) =
      mset (map (join dir) (filter (\<lambda>e. photo_candidate e \<and> P e) fl))"
    if "isdir fs dir" "listdir fs dir = Inr fl" for fl
  proof (intro exI [of _ "\<lambda>e. True"])
    from PhotoDiscovery_discover_paths [OF that d]
    show "mset (map path recs) =
        mset (map (join dir) (filter (\<lambda>e. photo_candidate e \<and> True) fl))"
      by (simp only: simp_thms)
  qed
  with d r have "basename (path r) \<noteq> ustr ''thumb_5.jpg'' \<and> basename (path r) \<noteq> ustr ''clip_3.mp4''"
    unfolding PhotoDiscovery_discover_def by (rule photo_output_basenames)
  then show "basename (path r) \<noteq> ustr ''thumb_5.jpg''" and "basename (path r) \<noteq> ustr ''clip_3.mp4''"
    by simp_all
next
  fix r
  assume d: "ExifPhotoDiscoverer_discover ep fs dir = Inr (xrecs, xtag)" and r: "r \<in> set xrecs"
  have "\<exists>P. mset (map path xrecs) =
      mset (map (join dir) (filter (\<lambda>e. photo_candidate e \<and> P e) fl))"
    if "isdir fs dir" "listdir fs dir = Inr fl" for fl
    using ExifPhotoDiscoverer_discover_paths [OF that d]
    by (intro exI [of _ "\<lambda>e. ExifPhotoDiscoverer_photo_from_path ep (join dir e) \<noteq> None"])
  with d r have "basename (path r) \<noteq> ustr ''thumb_5.jpg'' \<and> basename (path r) \<noteq> ustr ''clip_3.mp4''"
    unfolding ExifPhotoDiscoverer_discover_def by (rule photo_output_basenames)
  then show "basename (path r) \<noteq> ustr ''thumb_5.jpg''" and "basename (path r) \<noteq> ustr ''clip_3.mp4''"
    by simp_all
next
  fix r
  assume d: "VideoDiscoverer_discover py fs dir = Inr (vrecs, vtag)" and r: "r \<in> set vrecs"
  from d show "basename (path r) \<noteq> ustr ''clip_3.jpg''"
  proof (cases rule: VideoDiscoverer_discover_Inr_cases)
    case 1
    with r show ?thesis by simp
  next
    case (2 fl)
    from 2 d have "mset (map path vrecs) = mset (map (join dir) (filter video_candidate fl))"
      by (rule VideoDiscoverer_discover_paths)
    from this r obtain e where e: "video_candidate e" "path r = join dir e"
      by (rule mset_paths_entry)
    from e(2) have "basename (path r) = basename e" by (simp add: basename_join)
    with e(1) jpg_not_video_candidate [of e] show ?thesis by auto
  qed
next
  assume h: "isdir fs dir \<and> listdir fs dir = Inr files \<and> ustr ''clip_3.jpg'' \<in> set files \<and>
    PhotoDiscovery_discover py fs dir = Inr (recs, tag)"
  then have "mset (map path recs) = mset (map (join dir) (filter photo_candidate files))"
    using PhotoDiscovery_discover_paths [of fs dir files py recs tag] by blast
  then show "join dir (ustr ''clip_3.jpg'') \<in> path ` set recs"
    by (rule entry_mset_paths) (simp_all add: h clip_candidates)
next
  assume h: "isdir fs dir \<and> listdir fs dir = Inr files \<and> ustr ''clip_3.mp4'' \<in> set files \<and>
    VideoDiscoverer_discover py fs dir = Inr (vrecs, vtag)"
  then have "mset (map path vrecs) = mset (map (join dir) (filter video_candidate files))"
    using VideoDiscoverer_discover_paths [of fs dir files py vrecs vtag] by blast
  then show "join dir (ustr ''clip_3.mp4'') \<in> path ` set vrecs"
    by (rule entry_mset_paths) (simp_all add: h clip_candidates)
qed

theorem candidate_filters_witness:
  "isdir (fs_of (ustr ''d'')
      [ustr ''clip_3.mp4'', ustr ''clip_3.jpg'', ustr ''thumb_5.jpg'', ustr ''a_1.jpg''])
      (ustr ''d'') \<and>
   listdir (fs_of (ustr ''d'')
       [ustr ''clip_3.mp4'', ustr ''clip_3.jpg'', ustr ''thumb_5.jpg'', ustr ''a_1.jpg''])
       (ustr ''d'') =
     Inr [ustr ''clip_3.mp4'', ustr ''clip_3.jpg'', ustr ''thumb_5.jpg'', ustr ''a_1.jpg''] \<and>
   (PhotoDiscovery_discover cpython311
      (fs_of (ustr ''d'') [ustr ''clip_3.mp4'', ustr ''clip_3.jpg'', ustr ''thumb_5.jpg'',
          ustr ''a_1.jpg'']) (ustr ''d'')
      :: error + (int photo list \<times> string)) =
     Inr ([(Photo (ustr ''d/a_1.jpg''))\<lparr>index := Some 0\<rparr>,
           (Photo (ustr ''d/clip_3.jpg''))\<lparr>index := Some 1\<rparr>], ''photo'') \<and>
   ExifPhotoDiscoverer_discover example_ep
      (fs_of (ustr ''d'') [ustr ''clip_3.mp4'', ustr ''clip_3.jpg'', ustr ''thumb_5.jpg'',
          ustr ''a_1.jpg'']) (ustr ''d'') =
     Inr ([\<lparr>path = ustr ''d/a_1.jpg'', index = Some 0, latitude = Some 45, longitude = Some 7,
             exif_timestamp = None, gps_timestamp = Some 200, gps_speed = None,
             gps_altitude = None, gps_compass = None\<rparr>], ''photo'') \<and>
   VideoDiscoverer_discover cpython311
      (fs_of (ustr ''d'') [ustr ''clip_3.mp4'', ustr ''clip_3.jpg'', ustr ''thumb_5.jpg'',
          ustr ''a_1.jpg'']) (ustr ''d'') =
     Inr ([(Video (ustr ''d/clip_3.mp4''))\<lparr>index := Some 0\<rparr>], ''video'') \<and>
   mset (map path [(Photo (ustr ''d/a_1.jpg'') :: int photo)\<lparr>index := Some 0\<rparr>,
                   (Photo (ustr ''d/clip_3.jpg''))\<lparr>index := Some 1\<rparr>]) =
     mset (map (join (ustr ''d''))
       (filter photo_candidate
           [ustr ''clip_3.mp4'', ustr ''clip_3.jpg'', ustr ''thumb_5.jpg'', ustr ''a_1.jpg''])) \<and>
   mset (map path [(Video (ustr ''d/clip_3.mp4''))\<lparr>index := Some 0\<rparr>]) =
     mset (map (join (ustr ''d''))
       (filter video_candidate
           [ustr ''clip_3.mp4'', ustr ''clip_3.jpg'', ustr ''thumb_5.jpg'', ustr ''a_1.jpg''])) \<and>
   join (ustr ''d'') (ustr ''clip_3.jpg'') \<in> path ` set
       [(Photo (ustr ''d/a_1.jpg'') :: int photo)\<lparr>index := Some 0\<rparr>,
                   (Photo (ustr ''d/clip_3.jpg''))\<lparr>index := Some 1\<rparr>] \<and>
   join (ustr ''d'') (ustr ''clip_3.mp4'') \<in> path ` set
       [(Video (ustr ''d/clip_3.mp4''))\<lparr>index := Some 0\<rparr>]"
proof -
  let ?L = "[ustr ''clip_3.mp4'', ustr ''clip_3.jpg'', ustr ''thumb_5.jpg'', ustr ''a_1.jpg'']"
  let ?F = "fs_of (ustr ''d'') ?L"
  let ?R = "[(Photo (ustr ''d/a_1.jpg'') :: int photo)\<lparr>index := Some 0\<rparr>,
             (Photo (ustr ''d/clip_3.jpg''))\<lparr>index := Some 1\<rparr>]"
  let ?X = "[\<lparr>path = ustr ''d/a_1.jpg'', index = Some 0, latitude = Some (45 :: int),
      longitude = Some 7, exif_timestamp = None, gps_timestamp = Some 200, gps_speed = None,
      gps_altitude = None, gps_compass = None\<rparr>]"
  let ?V = "[(Video (ustr ''d/clip_3.mp4''))\<lparr>index := Some 0\<rparr>]"
  have h: "isdir ?F (ustr ''d'')" "listdir ?F (ustr ''d'') = Inr ?L"
    by (simp_all add: fs_of_def ustr_def)
  have m: "ustr ''clip_3.jpg'' \<in> set ?L" "ustr ''clip_3.mp4'' \<in> set ?L"
    by simp_all
  have p: "PhotoDiscovery_discover cpython311 ?F (ustr ''d'') = Inr (?R, ''photo'')"
    by (simp add: eval_discover eval_path eval_key)
  have x: "ExifPhotoDiscoverer_discover example_ep ?F (ustr ''d'') = Inr (?X, ''photo'')"
    by (simp add: eval_exif_discover eval_path eval_exif)
  have v: "VideoDiscoverer_discover cpython311 ?F (ustr ''d'') = Inr (?V, ''video'')"
    by (simp add: eval_discover eval_path eval_key)
  note t = candidate_filters
      [where py = cpython311 and fs = ?F and dir = "ustr ''d''" and files = ?L and recs = ?R
      and tag = "''photo''" and ep = example_ep and xrecs = ?X and xtag = "''photo''"
      and vrecs = ?V and vtag = "''video''"
      and from_path = "PhotoDiscovery_photo_from_path :: pystr \<Rightarrow> int photo option"]
  from t h p have c1: "mset (map path ?R) = mset
      (map (join (ustr ''d'')) (filter photo_candidate ?L))"
    by blast
  from t h v have c2: "mset (map path ?V) = mset
      (map (join (ustr ''d'')) (filter video_candidate ?L))"
    by blast
  from t h m p have c3: "join (ustr ''d'') (ustr ''clip_3.jpg'') \<in> path ` set ?R"
    by blast
  from t h m v have c4: "join (ustr ''d'') (ustr ''clip_3.mp4'') \<in> path ` set ?V"
    by blast
  show ?thesis
    by (rule conjI [OF h(1) conjI [OF h(2) conjI [OF p conjI [OF x conjI [OF v
        conjI [OF c1 conjI [OF c2 conjI [OF c3 c4]]]]]]]])
qed

text \<open>
  C8.  The result of a discovery call is determined by the state of the directory: whether
  the path is a directory, its listing (the entries in the order listed, or the error of
  the listing), and, for metadata-validated discovery, what the extractor yields for the
  joined path of each listed entry.  Two calls that see the same directory state return
  the same result, the same records in the same order with the same indices, whatever
  else differs between the two file systems or the two extractors.  A call passes nothing
  on to a later one: the functions of the module take the file system, the extractor and
  the path and return the result, every record is built in the call, and the module keeps
  no variable across calls.
\<close>

theorem discovery_deterministic:
  fixes ep1 :: "('t1, 'v::{zero,linorder}) exif_processing"
    and ep2 :: "('t2, 'v) exif_processing"
  shows
  "isdir fs1 dir = isdir fs2 dir \<and> listdir fs1 dir = listdir fs2 dir \<and>
   (\<forall>files. listdir fs1 dir = Inr files \<longrightarrow>
      (\<forall>e\<in>set files. extractor_results ep1 (join dir e) = extractor_results ep2 (join dir e)))
   \<longrightarrow>
     (PhotoDiscovery_discover py fs1 dir :: error + ('v photo list \<times> string)) =
       PhotoDiscovery_discover py fs2 dir \<and>
     ExifPhotoDiscoverer_discover ep1 fs1 dir = ExifPhotoDiscoverer_discover ep2 fs2 dir \<and>
     VideoDiscoverer_discover py fs1 dir = VideoDiscoverer_discover py fs2 dir"
proof (intro impI)
  assume h: "isdir fs1 dir = isdir fs2 dir \<and> listdir fs1 dir = listdir fs2 dir \<and>
   (\<forall>files. listdir fs1 dir = Inr files \<longrightarrow>
      (\<forall>e\<in>set files. extractor_results ep1 (join dir e) = extractor_results ep2 (join dir e)))"
  then have i: "isdir fs1 dir = isdir fs2 dir" and l: "listdir fs1 dir = listdir fs2 dir"
    by simp_all
  have c: "collect_photos (ExifPhotoDiscoverer_photo_from_path ep1) dir files =
      collect_photos (ExifPhotoDiscoverer_photo_from_path ep2) dir files"
    if "listdir fs1 dir = Inr files" for files
  proof (rule collect_photos_cong)
    fix e assume "e \<in> set files"
    with h that have "extractor_results ep1 (join dir e) = extractor_results ep2 (join dir e)"
      by blast
    then show "ExifPhotoDiscoverer_photo_from_path ep1 (join dir e) =
        ExifPhotoDiscoverer_photo_from_path ep2 (join dir e)"
      by (rule exif_photo_from_path_cong)
  qed
  have p: "(PhotoDiscovery_discover py fs1 dir :: error + ('v photo list \<times> string)) =
       PhotoDiscovery_discover py fs2 dir"
    by (simp add: PhotoDiscovery_discover_def discover_photos_def i l)
  have v: "VideoDiscoverer_discover py fs1 dir = VideoDiscoverer_discover py fs2 dir"
    by (simp add: VideoDiscoverer_discover_def i l)
  have x: "ExifPhotoDiscoverer_discover ep1 fs1 dir = ExifPhotoDiscoverer_discover ep2 fs2 dir"
  proof (cases "listdir fs1 dir")
    case (Inl e)
    moreover from Inl l have "listdir fs2 dir = Inl e" by simp
    ultimately show ?thesis
      by (simp add: ExifPhotoDiscoverer_discover_def discover_photos_def i)
  next
    case (Inr files)
    moreover from Inr l have "listdir fs2 dir = Inr files" by simp
    ultimately show ?thesis
      using c [OF Inr]
      by (simp add: ExifPhotoDiscoverer_discover_def discover_photos_def i)
  qed
  from p x v show "(PhotoDiscovery_discover py fs1 dir :: error + ('v photo list \<times> string)) =
       PhotoDiscovery_discover py fs2 dir \<and>
     ExifPhotoDiscoverer_discover ep1 fs1 dir = ExifPhotoDiscoverer_discover ep2 fs2 dir \<and>
     VideoDiscoverer_discover py fs1 dir = VideoDiscoverer_discover py fs2 dir"
    by (intro conjI)
qed

theorem discovery_deterministic_witness:
  "isdir (fs_of (ustr ''d'') [ustr ''b_2.jpg'', ustr ''a_1.jpg'', ustr ''clip_3.mp4''])
      (ustr ''d'') =
     isdir (fs_of2 (ustr ''d'') [ustr ''b_2.jpg'', ustr ''a_1.jpg'', ustr ''clip_3.mp4''])
         (ustr ''d'') \<and>
   listdir (fs_of (ustr ''d'') [ustr ''b_2.jpg'', ustr ''a_1.jpg'', ustr ''clip_3.mp4''])
       (ustr ''d'') =
     listdir (fs_of2 (ustr ''d'') [ustr ''b_2.jpg'', ustr ''a_1.jpg'', ustr ''clip_3.mp4''])
         (ustr ''d'') \<and>
   isdir (fs_of (ustr ''d'') [ustr ''b_2.jpg'', ustr ''a_1.jpg'', ustr ''clip_3.mp4''])
       (ustr ''elsewhere'') \<noteq>
     isdir (fs_of2 (ustr ''d'') [ustr ''b_2.jpg'', ustr ''a_1.jpg'', ustr ''clip_3.mp4''])
         (ustr ''elsewhere'') \<and>
   extractor_results example_ep (ustr ''elsewhere/z_9.jpg'') \<noteq>
     extractor_results example_ep2 (ustr ''elsewhere/z_9.jpg'') \<and>
   (PhotoDiscovery_discover cpython311
       (fs_of (ustr ''d'') [ustr ''b_2.jpg'', ustr ''a_1.jpg'', ustr ''clip_3.mp4'']) (ustr ''d'')
      :: error + (int photo list \<times> string)) =
     PhotoDiscovery_discover cpython311
         (fs_of2 (ustr ''d'') [ustr ''b_2.jpg'', ustr ''a_1.jpg'', ustr ''clip_3.mp4''])
         (ustr ''d'') \<and>
   ExifPhotoDiscoverer_discover example_ep
       (fs_of (ustr ''d'') [ustr ''b_2.jpg'', ustr ''a_1.jpg'', ustr ''clip_3.mp4'']) (ustr ''d'') =
     ExifPhotoDiscoverer_discover example_ep2
       (fs_of2 (ustr ''d'') [ustr ''b_2.jpg'', ustr ''a_1.jpg'', ustr ''clip_3.mp4''])
           (ustr ''d'') \<and>
   VideoDiscoverer_discover cpython311
       (fs_of (ustr ''d'') [ustr ''b_2.jpg'', ustr ''a_1.jpg'', ustr ''clip_3.mp4'']) (ustr ''d'') =
     VideoDiscoverer_discover cpython311
         (fs_of2 (ustr ''d'') [ustr ''b_2.jpg'', ustr ''a_1.jpg'', ustr ''clip_3.mp4''])
         (ustr ''d'')"
proof -
  let ?L = "[ustr ''b_2.jpg'', ustr ''a_1.jpg'', ustr ''clip_3.mp4'']"
  have i: "isdir (fs_of (ustr ''d'') ?L) (ustr ''d'') = isdir (fs_of2 (ustr ''d'') ?L) (ustr ''d'')"
    and l: "listdir (fs_of (ustr ''d'') ?L) (ustr ''d'') = listdir (fs_of2 (ustr ''d'') ?L)
        (ustr ''d'')"
    and n: "isdir (fs_of (ustr ''d'') ?L) (ustr ''elsewhere'') \<noteq> isdir (fs_of2 (ustr ''d'') ?L)
        (ustr ''elsewhere'')"
    by (simp_all add: fs_of_def fs_of2_def ustr_def)
  have m: "extractor_results example_ep (ustr ''elsewhere/z_9.jpg'') \<noteq>
      extractor_results example_ep2 (ustr ''elsewhere/z_9.jpg'')"
    by (simp add: extractor_results_def example_ep_def example_ep2_def example_tags_def ustr_def)
  have e: "\<forall>files. listdir (fs_of (ustr ''d'') ?L) (ustr ''d'') = Inr files \<longrightarrow>
      (\<forall>e\<in>set files. extractor_results example_ep (join (ustr ''d'') e) =
         extractor_results example_ep2 (join (ustr ''d'') e))"
    by (simp add: fs_of_def extractor_results_def example_ep_def example_ep2_def
        example_tags_def join_def suffix_to_prefix ustr_def sep_def)
  from i l e have "isdir (fs_of (ustr ''d'') ?L) (ustr ''d'') = isdir (fs_of2 (ustr ''d'') ?L)
      (ustr ''d'') \<and>
      listdir (fs_of (ustr ''d'') ?L) (ustr ''d'') = listdir (fs_of2 (ustr ''d'') ?L) (ustr ''d'') \<and>
      (\<forall>files. listdir (fs_of (ustr ''d'') ?L) (ustr ''d'') = Inr files \<longrightarrow>
        (\<forall>e\<in>set files. extractor_results example_ep (join (ustr ''d'') e) =
           extractor_results example_ep2 (join (ustr ''d'') e)))"
    by (intro conjI)
  from discovery_deterministic [THEN mp, OF this]
  have r: "(PhotoDiscovery_discover cpython311 (fs_of (ustr ''d'') ?L) (ustr ''d'') :: error +
      (int photo list \<times> string)) =
      PhotoDiscovery_discover cpython311 (fs_of2 (ustr ''d'') ?L) (ustr ''d'') \<and>
    ExifPhotoDiscoverer_discover example_ep (fs_of (ustr ''d'') ?L) (ustr ''d'') =
      ExifPhotoDiscoverer_discover example_ep2 (fs_of2 (ustr ''d'') ?L) (ustr ''d'') \<and>
    VideoDiscoverer_discover cpython311 (fs_of (ustr ''d'') ?L) (ustr ''d'') =
      VideoDiscoverer_discover cpython311 (fs_of2 (ustr ''d'') ?L) (ustr ''d'')" .
  show ?thesis
    by (rule conjI [OF i conjI [OF l conjI [OF n conjI [OF m r]]]])
qed




end
